theory Spec2Isabelle
  imports Main "HOL-Library.Word" "HOL-Library.Signed_Division"
begin

unbundle bit_operations_syntax

section \<open>terminals.c (WIN32 part): subsystem detection and the command line\<close>

subsection \<open>\<open>is_gui_app\<close>\<close>

text \<open>
  \<open>is_gui_app\<close> opens the executable with \<open>CreateFile\<close> and reads its headers with
  \<open>ReadBytes\<close>, which ignores every read failure; the function then decides on whatever
  the buffers hold. The model takes what the buffers hold after the reads as the image:
  the DOS magic, the offset returned by \<open>SetFilePointer\<close>, the NT signature and the
  \<open>Subsystem\<close> field of the optional header. A file system maps a file name to the image
  read from it, or to \<open>None\<close> when \<open>CreateFile\<close> returns \<open>INVALID_HANDLE_VALUE\<close>.
\<close>

record pe_image =
  e_magic :: "16 word"
  new_offset :: "32 word"
  ntSignature :: "32 word"
  Subsystem :: "16 word"

type_synonym file_system = "string \<Rightarrow> pe_image option"

definition IMAGE_DOS_SIGNATURE :: "16 word" where "IMAGE_DOS_SIGNATURE = 0x5A4D"
definition IMAGE_NT_SIGNATURE :: "32 word" where "IMAGE_NT_SIGNATURE = 0x00004550"

definition IMAGE_SUBSYSTEM_UNKNOWN :: "16 word" where "IMAGE_SUBSYSTEM_UNKNOWN = 0"
definition IMAGE_SUBSYSTEM_NATIVE :: "16 word" where "IMAGE_SUBSYSTEM_NATIVE = 1"
definition IMAGE_SUBSYSTEM_WINDOWS_GUI :: "16 word" where "IMAGE_SUBSYSTEM_WINDOWS_GUI = 2"
definition IMAGE_SUBSYSTEM_WINDOWS_CUI :: "16 word" where "IMAGE_SUBSYSTEM_WINDOWS_CUI = 3"
definition IMAGE_SUBSYSTEM_OS2_CUI :: "16 word" where "IMAGE_SUBSYSTEM_OS2_CUI = 5"
definition IMAGE_SUBSYSTEM_POSIX_CUI :: "16 word" where "IMAGE_SUBSYSTEM_POSIX_CUI = 7"

lemmas IMAGE_SUBSYSTEM_defs =
  IMAGE_SUBSYSTEM_UNKNOWN_def IMAGE_SUBSYSTEM_NATIVE_def IMAGE_SUBSYSTEM_WINDOWS_GUI_def
  IMAGE_SUBSYSTEM_WINDOWS_CUI_def IMAGE_SUBSYSTEM_OS2_CUI_def IMAGE_SUBSYSTEM_POSIX_CUI_def

definition dquote :: char where "dquote = CHR 0x22"

text \<open>The name handed to \<open>CreateFile\<close>: a leading quote strips the first and the last
  character of a name longer than two characters.\<close>

definition exe_file :: "string \<Rightarrow> string" where
  "exe_file exe =
     (if length exe > 2 \<and> hd exe = dquote then take (length exe - 2) (tl exe) else exe)"

text \<open>\<open>AbsoluteSeek\<close> returns a \<open>DWORD\<close>: its \<open>-1\<close> is \<open>0xFFFFFFFF\<close>.\<close>

definition AbsoluteSeek :: "32 word \<Rightarrow> 32 word" where
  "AbsoluteSeek newOffset = (if newOffset = 0xFFFFFFFF then - 1 else newOffset)"

definition subsystem_switch :: "16 word \<Rightarrow> int" where
  "subsystem_switch s =
     (if s = IMAGE_SUBSYSTEM_UNKNOWN then 1
      else if s = IMAGE_SUBSYSTEM_NATIVE then 1
      else if s = IMAGE_SUBSYSTEM_WINDOWS_GUI then 1
      else if s = IMAGE_SUBSYSTEM_WINDOWS_CUI then 0
      else if s = IMAGE_SUBSYSTEM_OS2_CUI then 0
      else if s = IMAGE_SUBSYSTEM_POSIX_CUI then 0
      else 1)"

definition is_gui_app :: "file_system \<Rightarrow> string \<Rightarrow> int" where
  "is_gui_app fs exe =
     (case fs (exe_file exe) of
        None \<Rightarrow> - 1
      | Some img \<Rightarrow>
          if IMAGE_DOS_SIGNATURE \<noteq> e_magic img then - 1
          else let CoffHeaderOffset = AbsoluteSeek (new_offset img) + 4 in
            if CoffHeaderOffset < 0 then - 1
            else if IMAGE_NT_SIGNATURE \<noteq> ntSignature img then - 1
            else subsystem_switch (Subsystem img))"

subsection \<open>\<open>nt_spawnve\<close>: building the command line\<close>

definition escape_char :: char where "escape_char = CHR 0x5C"

definition blank :: "char \<Rightarrow> bool" where
  "blank c \<longleftrightarrow> c = CHR 0x20 \<or> c = CHR 0x09"

text \<open>First pass over one argument (the \<open>for\<close> loop of the \<open>arglen\<close> computation): the
  state is \<open>arglen\<close>, \<open>need_quotes\<close> and \<open>escape_char_run\<close>.\<close>

fun arglen_chars :: "string \<Rightarrow> nat \<times> bool \<times> nat \<Rightarrow> nat \<times> bool \<times> nat" where
  "arglen_chars [] st = st"
| "arglen_chars (c # p) (arglen, need_quotes, run) =
     (let (arglen, need_quotes) =
            (if c = dquote then (arglen + 1 + run, True)
             else if blank c then (arglen, True)
             else (arglen, need_quotes))
      in arglen_chars p (arglen, need_quotes,
           if c = escape_char \<and> escape_char \<noteq> dquote then run + 1 else 0))"

definition arglen_arg :: "nat \<Rightarrow> string \<Rightarrow> nat" where
  "arglen_arg arglen arg =
     (case arglen_chars arg (arglen, arg = [], 0) of
        (arglen, need_quotes, run) \<Rightarrow>
          (if need_quotes then arglen + 2 + run else arglen) + length arg + 1)"

definition arglen_argv :: "string list \<Rightarrow> nat" where
  "arglen_argv argv = foldl arglen_arg 0 argv"

text \<open>Second pass: does the argument need quotes, and the text written for it.\<close>

definition need_quotes :: "string \<Rightarrow> bool" where
  "need_quotes arg \<longleftrightarrow> arg = [] \<or> list_ex (\<lambda>c. blank c \<or> c = dquote) arg"

text \<open>The loop writing a quoted argument, after the opening quote: \<open>run\<close> is
  \<open>escape_char_run\<close>. At the end of the argument the run is written once more and the
  closing quote follows.\<close>

fun quote_chars :: "nat \<Rightarrow> string \<Rightarrow> string" where
  "quote_chars run [] = replicate run escape_char @ [dquote]"
| "quote_chars run (c # p) =
     (if c = dquote then replicate run escape_char @ [escape_char] else []) @ c #
     quote_chars (if c = escape_char \<and> escape_char \<noteq> dquote then run + 1 else 0) p"

definition write_arg :: "string \<Rightarrow> string" where
  "write_arg arg = (if need_quotes arg then dquote # quote_chars 0 arg else arg)"

text \<open>Every argument is followed by a space; the last space is overwritten with the
  terminator.\<close>

definition write_argv :: "string list \<Rightarrow> string" where
  "write_argv argv = concat (map (\<lambda>arg. write_arg arg @ [CHR 0x20]) argv)"

text \<open>
  The command line of \<open>nt_spawnve\<close>. \<open>argv\<close> is the null-terminated array as a list. With
  an empty array \<open>argv[0]\<close> is the null pointer, which \<open>is_gui_app\<close> hands to \<open>strlen\<close>:
  there is no command line then (\<open>None\<close>).
\<close>

definition nt_spawnve_flags :: "file_system \<Rightarrow> string list \<Rightarrow> (bool \<times> bool) option" where
  "nt_spawnve_flags fs argv =
     (case argv of
        [] \<Rightarrow> None
      | exe # _ \<Rightarrow>
          (let is_gui = is_gui_app fs exe in
           if is_gui = - 1 then Some (False, True) else Some (is_gui \<noteq> 0, False)))"

definition nt_spawnve_cmdline :: "file_system \<Rightarrow> string list \<Rightarrow> string option" where
  "nt_spawnve_cmdline fs argv =
     (case nt_spawnve_flags fs argv of
        None \<Rightarrow> None
      | Some (is_gui, use_cmd) \<Rightarrow>
          Some (butlast ((if use_cmd then ''cmd /c '' else []) @ write_argv argv)))"

definition nt_spawnve_arglen :: "file_system \<Rightarrow> string list \<Rightarrow> nat option" where
  "nt_spawnve_arglen fs argv =
     (case nt_spawnve_flags fs argv of
        None \<Rightarrow> None
      | Some (is_gui, use_cmd) \<Rightarrow> Some (arglen_argv argv + (if use_cmd then 7 else 0)))"

subsection \<open>Splitting a command line into arguments\<close>

text \<open>
  The child splits its command line by the rules of the Microsoft C run-time. This is
  the reader the builder is written for; it is no code of the repository.

  The program name, the first argument, is read by a rule of its own: a double quote
  only switches the quoted mode and is dropped, a blank outside quotes ends the name,
  and a backslash is an ordinary character.

  The arguments after the program name are separated by spaces and tabs; a double quote
  opens or closes a quoted part, in which blanks do not separate; \<open>2n\<close> backslashes
  before a double quote give \<open>n\<close> backslashes and the quote delimits; \<open>2n + 1\<close>
  backslashes before a double quote give \<open>n\<close> backslashes and a literal quote;
  backslashes not before a double quote are literal; inside a quoted part two double
  quotes give one literal quote.

  \<open>scan_arg inquote numslash s\<close> reads one argument after the program name from \<open>s\<close>,
  with \<open>numslash\<close> backslashes pending, and returns the argument and the rest of the
  line.
\<close>

fun scan_arg :: "bool \<Rightarrow> nat \<Rightarrow> string \<Rightarrow> string \<times> string" where
  "scan_arg inquote numslash [] = (replicate numslash escape_char, [])"
| "scan_arg inquote numslash (c # s) =
     (if c = escape_char then scan_arg inquote (numslash + 1) s
      else if c = dquote then
        (if even numslash then
           (if inquote \<and> s \<noteq> [] \<and> hd s = dquote then
              (case scan_arg inquote 0 (tl s) of
                 (w, r) \<Rightarrow> (replicate (numslash div 2) escape_char @ dquote # w, r))
            else
              (case scan_arg (\<not> inquote) 0 s of
                 (w, r) \<Rightarrow> (replicate (numslash div 2) escape_char @ w, r)))
         else
           (case scan_arg inquote 0 s of
              (w, r) \<Rightarrow> (replicate (numslash div 2) escape_char @ dquote # w, r)))
      else if \<not> inquote \<and> blank c then (replicate numslash escape_char, c # s)
      else
        (case scan_arg inquote 0 s of
           (w, r) \<Rightarrow> (replicate numslash escape_char @ c # w, r)))"

lemma chars_neq [simp]:
  "escape_char \<noteq> dquote" "dquote \<noteq> escape_char"
  "\<not> blank escape_char" "\<not> blank dquote"
  by (simp_all add: escape_char_def dquote_def blank_def)

lemma scan_arg_rest_le: "length (snd (scan_arg inq n s)) \<le> length s"
proof (induction inq n s rule: scan_arg.induct)
  case (1 inquote numslash)
  then show ?case by simp
next
  case (2 inquote numslash c s)
  then show ?case
    by (auto split: prod.splits simp: le_Suc_eq dest: le_trans [OF _ length_tl [THEN eq_refl]])
qed

text \<open>The arguments after the program name: skip blanks, read an argument, go on with
  the rest.\<close>

function parse_args :: "string \<Rightarrow> string list" where
  "parse_args s =
     (case dropWhile blank s of
        [] \<Rightarrow> []
      | c # s' \<Rightarrow> (case scan_arg False 0 (c # s') of (w, r) \<Rightarrow> w # parse_args r))"
  by pat_completeness auto
termination
proof (relation "measure length")
  show "wf (measure length)" by simp
next
  fix s c s' w r
  assume d: "dropWhile blank s = c # s'" and sc: "(w, r) = scan_arg False 0 (c # s')"
  have nb: "\<not> blank c" using d hd_dropWhile [of blank s] by auto
  have "length (snd (scan_arg False 0 (c # s'))) \<le> length s'"
    using nb scan_arg_rest_le [of False "Suc 0" s'] scan_arg_rest_le [of True 0 s']
      scan_arg_rest_le [of False 0 s']
    by (auto split: prod.splits)
  moreover have "length (c # s') \<le> length s"
    using d length_dropWhile_le [of blank s] by simp
  ultimately show "(r, s) \<in> measure length" using sc [symmetric] by simp
qed

declare parse_args.simps [simp del]

text \<open>The program name and the rest of the line after it, and the whole line: the
  program name, then the arguments.\<close>

fun scan_program_name :: "bool \<Rightarrow> string \<Rightarrow> string \<times> string" where
  "scan_program_name inquote [] = ([], [])"
| "scan_program_name inquote (c # s) =
     (if c = dquote then scan_program_name (\<not> inquote) s
      else if \<not> inquote \<and> blank c then ([], s)
      else (case scan_program_name inquote s of (w, r) \<Rightarrow> (c # w, r)))"

definition parse_command_line :: "string \<Rightarrow> string list" where
  "parse_command_line s = (case scan_program_name False s of (w, r) \<Rightarrow> w # parse_args r)"

text \<open>Concrete file systems for the examples: one in which no file opens, and one
  holding a console executable \<open>prog.exe\<close>.\<close>

definition no_files :: file_system where
  "no_files = (\<lambda>name. None)"

definition console_image :: pe_image where
  "console_image = \<lparr>e_magic = 0x5A4D, new_offset = 0x80, ntSignature = 0x4550, Subsystem = 3\<rparr>"

definition one_file :: file_system where
  "one_file = (\<lambda>name. if name = ''prog.exe'' then Some console_image else None)"

subsection \<open>The builder and the reader\<close>

lemma scan_arg_replicate:
  "scan_arg inq n (replicate k escape_char @ s) = scan_arg inq (n + k) s"
  by (induction k arbitrary: n) simp_all

text \<open>A quoted argument, read from inside its opening quote, comes back as it was; the
  pending backslashes of the reader are the run the writer has counted.\<close>

lemma scan_quoted:
  "rest = [] \<or> blank (hd rest) \<Longrightarrow>
   scan_arg True run (quote_chars run a @ rest) = (replicate run escape_char @ a, rest)"
proof (induction a arbitrary: run)
  case Nil
  have "scan_arg True (run + run) (dquote # rest) = (replicate run escape_char, rest)"
    using Nil by (cases rest) (auto simp: blank_def dquote_def escape_char_def)
  then show ?case by (simp add: scan_arg_replicate)
next
  case (Cons c a)
  show ?case
  proof (cases "c = escape_char")
    case True
    then show ?thesis using Cons.IH [OF Cons.prems, of "run + 1"]
      by (simp add: replicate_append_same)
  next
    case ne: False
    show ?thesis
    proof (cases "c = dquote")
      case True
      have "scan_arg True (run + (run + 1)) (dquote # quote_chars 0 a @ rest)
            = (replicate run escape_char @ dquote # a, rest)"
        using Cons.IH [OF Cons.prems, of 0] by simp
      then show ?thesis using True scan_arg_replicate [of True run "run + 1"]
        by (simp add: scan_arg_replicate replicate_append_same [symmetric] del: replicate_Suc)
    next
      case False
      then show ?thesis using ne Cons.IH [OF Cons.prems, of 0] by simp
    qed
  qed
qed

lemma scan_plain:
  "\<not> list_ex (\<lambda>c. blank c \<or> c = dquote) a \<Longrightarrow> rest = [] \<or> blank (hd rest) \<Longrightarrow>
   scan_arg False n (a @ rest) = (replicate n escape_char @ a, rest)"
proof (induction a arbitrary: n)
  case Nil
  then show ?case by (cases rest) (auto simp: blank_def dquote_def escape_char_def)
next
  case (Cons c a)
  then show ?case by (auto simp: replicate_append_same)
qed

lemma write_arg_hd: "write_arg a \<noteq> [] \<and> \<not> blank (hd (write_arg a))"
  by (cases a) (auto simp: write_arg_def need_quotes_def)

lemma parse_args_Nil: "parse_args [] = []"
  by (simp add: parse_args.simps)

lemma parse_args_blank: "blank c \<Longrightarrow> parse_args (c # s) = parse_args s"
  by (simp add: parse_args.simps [of "c # s"] parse_args.simps [of s])

lemma parse_args_write_arg:
  assumes "rest = [] \<or> blank (hd rest)"
  shows "parse_args (write_arg a @ rest) = a # parse_args rest"
proof -
  obtain c s where cs: "write_arg a = c # s" and nb: "\<not> blank c"
    using write_arg_hd [of a] by (cases "write_arg a") auto
  have "scan_arg False 0 (write_arg a @ rest) = (a, rest)"
  proof (cases "need_quotes a")
    case True
    then show ?thesis using scan_quoted [OF assms, of 0 a] by (simp add: write_arg_def)
  next
    case False
    then show ?thesis using scan_plain [OF _ assms, of a 0]
      by (simp add: write_arg_def need_quotes_def)
  qed
  then have "scan_arg False 0 (c # s @ rest) = (a, rest)" using cs by simp
  then show ?thesis using cs nb by (simp add: parse_args.simps [of "c # s @ rest"])
qed

lemma butlast_write_argv:
  "butlast (write_argv (a # as)) =
     write_arg a @ (if as = [] then [] else CHR 0x20 # butlast (write_argv as))"
  by (cases as) (simp_all add: write_argv_def butlast_append)

lemma parse_args_write_argv: "parse_args (butlast (write_argv (a # as))) = a # as"
proof (induction as arbitrary: a)
  case Nil
  then show ?case using parse_args_write_arg [of "[]" a]
    by (simp add: butlast_write_argv parse_args_Nil)
next
  case (Cons b bs)
  have "parse_args (write_arg a @ CHR 0x20 # butlast (write_argv (b # bs)))
        = a # parse_args (CHR 0x20 # butlast (write_argv (b # bs)))"
    by (rule parse_args_write_arg) (simp add: blank_def)
  also have "\<dots> = a # b # bs"
    using Cons.IH [of b] by (simp add: parse_args_blank blank_def)
  finally show ?case by (simp add: butlast_write_argv [of a "b # bs"])
qed

lemma cmd_prefix: "''cmd /c '' @ write_argv argv = write_argv (''cmd'' # ''/c'' # argv)"
  by (simp add: write_argv_def write_arg_def need_quotes_def blank_def dquote_def)

text \<open>The first pass counts exactly the characters the second pass writes, so the
  buffer of \<open>arglen + 1\<close> characters holds the command line.\<close>

lemma arglen_chars_length:
  "arglen_chars p (n, nq, run) = (n', nq', run') \<Longrightarrow>
   n' + length p + run' + 1 = n + length (quote_chars run p)"
proof (induction p arbitrary: n nq run)
  case Nil
  then show ?case by simp
next
  case (Cons c p)
  then show ?case by (auto split: if_splits) fastforce+
qed

lemma arglen_chars_plain:
  "\<not> list_ex (\<lambda>c. blank c \<or> c = dquote) p \<Longrightarrow>
   fst (arglen_chars p (n, nq, run)) = n \<and> fst (snd (arglen_chars p (n, nq, run))) = nq"
  by (induction p arbitrary: run) auto

lemma arglen_chars_quotes:
  "fst (snd (arglen_chars p (n, nq, run))) = (nq \<or> list_ex (\<lambda>c. blank c \<or> c = dquote) p)"
  by (induction p arbitrary: n nq run) auto

lemma arglen_arg_length: "arglen_arg n a = n + length (write_arg a @ [CHR 0x20])"
proof (cases "need_quotes a")
  case True
  obtain n' nq' run' where r: "arglen_chars a (n, a = [], 0) = (n', nq', run')"
    by (cases "arglen_chars a (n, a = [], 0)") auto
  have "nq'" using arglen_chars_quotes [of a n "a = []" 0] r True
    by (simp add: need_quotes_def)
  then show ?thesis using arglen_chars_length [OF r] r True
    by (simp add: arglen_arg_def write_arg_def)
next
  case False
  obtain n' nq' run' where r: "arglen_chars a (n, a = [], 0) = (n', nq', run')"
    by (cases "arglen_chars a (n, a = [], 0)") auto
  have "n' = n \<and> \<not> nq'" using arglen_chars_plain [of a n "a = []" 0] r False
    by (simp add: need_quotes_def)
  then show ?thesis using r False by (simp add: arglen_arg_def write_arg_def)
qed

lemma foldl_arglen_arg: "foldl arglen_arg n argv = n + length (write_argv argv)"
  by (induction argv arbitrary: n) (simp_all add: write_argv_def arglen_arg_length)

lemma nt_spawnve_arglen_exact:
  "argv \<noteq> [] \<Longrightarrow>
   nt_spawnve_arglen fs argv = map_option (\<lambda>cmdline. length cmdline + 1) (nt_spawnve_cmdline fs argv)"
proof -
  assume "argv \<noteq> []"
  then have "write_argv argv \<noteq> []" by (cases argv) (simp_all add: write_argv_def)
  then show ?thesis
    by (cases "nt_spawnve_flags fs argv")
      (auto simp: nt_spawnve_arglen_def nt_spawnve_cmdline_def arglen_argv_def foldl_arglen_arg)
qed

lemma is_gui_app_console: "is_gui_app one_file ''prog.exe'' = 0"
  by code_simp

text \<open>The text written for an argument, in the words of the comment in the source:
  quotes around an argument that is empty or holds a blank or a double quote; a double
  quote after \<open>n\<close> backslashes becomes \<open>2n + 1\<close> backslashes and the quote; \<open>n\<close>
  backslashes at the end become \<open>2n\<close> backslashes before the closing quote; every other
  character, and the backslashes before it, are written as they are.\<close>

lemma quote_chars_run:
  "quote_chars run (replicate n escape_char @ s) = replicate n escape_char @ quote_chars (run + n) s"
  by (induction n arbitrary: run) (simp_all add: replicate_append_same)

lemma write_arg_quoted:
  "(\<exists>body. write_arg a = dquote # body @ [dquote]) \<longleftrightarrow>
   a = [] \<or> (\<exists>c\<in>set a. c = CHR 0x20 \<or> c = CHR 0x09 \<or> c = dquote)"
proof (cases "need_quotes a")
  case True
  have "\<exists>body. quote_chars run a = body @ [dquote]" for run
  proof (induction a arbitrary: run)
    case Nil
    then show ?case by simp
  next
    case (Cons c a)
    from Cons [of "if c = escape_char \<and> escape_char \<noteq> dquote then run + 1 else 0"]
    obtain body where "quote_chars (if c = escape_char \<and> escape_char \<noteq> dquote then run + 1 else 0) a
       = body @ [dquote]" by blast
    then show ?case
      by (metis append.assoc append_Cons quote_chars.simps(2))
  qed
  then show ?thesis using True
    by (auto simp: write_arg_def need_quotes_def list_ex_iff blank_def)
next
  case False
  then have "a \<noteq> []" "hd a \<noteq> dquote"
    by (cases a; auto simp: need_quotes_def)+
  then show ?thesis using False
    by (cases a) (auto simp: write_arg_def need_quotes_def list_ex_iff blank_def)
qed

lemma quote_chars_escapes:
  "quote_chars 0 (replicate n escape_char @ dquote # s) =
     replicate (2 * n + 1) escape_char @ dquote # quote_chars 0 s"
  "quote_chars 0 (replicate n escape_char) = replicate (2 * n) escape_char @ [dquote]"
  "c \<noteq> escape_char \<Longrightarrow> c \<noteq> dquote \<Longrightarrow>
   quote_chars 0 (replicate n escape_char @ c # s) = replicate n escape_char @ c # quote_chars 0 s"
proof -
  have r: "replicate n escape_char @ replicate m escape_char = replicate (n + m) escape_char" for m
    by (simp add: replicate_add)
  have "quote_chars 0 (replicate n escape_char @ dquote # s) =
      (replicate n escape_char @ replicate (Suc n) escape_char) @ dquote # quote_chars 0 s"
    using quote_chars_run [of 0 n "dquote # s"] by (simp add: replicate_append_same)
  then show "quote_chars 0 (replicate n escape_char @ dquote # s) =
     replicate (2 * n + 1) escape_char @ dquote # quote_chars 0 s"
    unfolding r by (simp add: mult_2)
  have "quote_chars 0 (replicate n escape_char) =
      (replicate n escape_char @ replicate n escape_char) @ [dquote]"
    using quote_chars_run [of 0 n "[]"] by simp
  then show "quote_chars 0 (replicate n escape_char) = replicate (2 * n) escape_char @ [dquote]"
    unfolding r by (simp add: mult_2)
  show "c \<noteq> escape_char \<Longrightarrow> c \<noteq> dquote \<Longrightarrow>
   quote_chars 0 (replicate n escape_char @ c # s) = replicate n escape_char @ c # quote_chars 0 s"
    using quote_chars_run [of 0 n "c # s"] by simp
qed

text \<open>The program name of a line built without the \<open>cmd /c\<close> prefix is \<open>argv[0]\<close> when
  \<open>argv[0]\<close> holds no double quote and, where it holds a blank, does not end in a
  backslash; the arguments after it come back as they were.\<close>

lemma scan_program_name_plain:
  "dquote \<notin> set a \<Longrightarrow> inq \<or> \<not> list_ex blank a \<Longrightarrow>
   scan_program_name inq (a @ s) = (case scan_program_name inq s of (w, r) \<Rightarrow> (a @ w, r))"
  by (induction a) (auto split: prod.splits)

lemma quote_chars_plain:
  "dquote \<notin> set a \<Longrightarrow> (if a = [] then run = 0 else last a \<noteq> escape_char) \<Longrightarrow>
   quote_chars run a = a @ [dquote]"
  by (induction a arbitrary: run) (auto split: if_splits)

lemma parse_command_line_roundtrip:
  assumes "dquote \<notin> set a"
    and "list_ex blank a \<longrightarrow> last a \<noteq> escape_char"
  shows "parse_command_line (butlast (write_argv (a # as))) = a # as"
proof -
  let ?rest = "if as = [] then [] else CHR 0x20 # butlast (write_argv as)"
  have rest: "scan_program_name False ?rest = ([], if as = [] then [] else butlast (write_argv as))"
    by (simp add: blank_def dquote_def)
  have pr: "parse_args (if as = [] then [] else butlast (write_argv as)) = as"
    using parse_args_write_argv [of "hd as" "tl as"] by (cases as) (simp_all add: parse_args_Nil)
  have "scan_program_name False (write_arg a @ ?rest) =
          (a, if as = [] then [] else butlast (write_argv as))"
  proof (cases "need_quotes a")
    case True
    have q: "quote_chars 0 a = a @ [dquote]"
      using assms True by (intro quote_chars_plain) (auto simp: need_quotes_def list_ex_iff)
    have "scan_program_name True (a @ dquote # ?rest) =
        (case scan_program_name True (dquote # ?rest) of (w, r) \<Rightarrow> (a @ w, r))"
      using assms(1) by (intro scan_program_name_plain) simp_all
    also have "\<dots> = (a, if as = [] then [] else butlast (write_argv as))"
      using rest by (simp del: scan_program_name.simps add: scan_program_name.simps(2) [of True dquote])
    finally show ?thesis using True q by (simp add: write_arg_def)
  next
    case False
    then have "\<not> list_ex blank a" by (auto simp: need_quotes_def list_ex_iff)
    then have "scan_program_name False (a @ ?rest) =
        (case scan_program_name False ?rest of (w, r) \<Rightarrow> (a @ w, r))"
      using assms(1) by (intro scan_program_name_plain) simp_all
    then show ?thesis using False rest by (simp add: write_arg_def del: scan_program_name.simps)
  qed
  then show ?thesis using pr
    by (simp add: parse_command_line_def butlast_write_argv)
qed

text \<open>The program name never holds a double quote, and a quoted \<open>argv[0]\<close> that ends in
  a backslash comes back with the backslashes that the builder has added.\<close>

lemma scan_program_name_no_quote: "dquote \<notin> set (fst (scan_program_name inq s))"
  by (induction inq s rule: scan_program_name.induct) (auto split: prod.splits)

lemma quote_chars_trailing:
  "dquote \<notin> set a \<Longrightarrow> a \<noteq> [] \<Longrightarrow> last a = escape_char \<Longrightarrow>
   \<exists>k>0. quote_chars run a = a @ replicate k escape_char @ [dquote]"
proof (induction a arbitrary: run)
  case Nil
  then show ?case by simp
next
  case (Cons c p)
  show ?case
  proof (cases "p = []")
    case True
    then have "quote_chars run (c # p) = (c # p) @ replicate (Suc run) escape_char @ [dquote]"
      using Cons.prems by simp
    then show ?thesis by blast
  next
    case False
    then obtain k where "0 < k"
      "quote_chars (if c = escape_char \<and> escape_char \<noteq> dquote then run + 1 else 0) p =
         p @ replicate k escape_char @ [dquote]"
      using Cons.IH [of "if c = escape_char \<and> escape_char \<noteq> dquote then run + 1 else 0"] Cons.prems
      by auto
    then show ?thesis using Cons.prems by (intro exI [of _ k]) auto
  qed
qed

lemma parse_command_line_hd:
  "parse_command_line (butlast (write_argv (a # as))) = a # as \<Longrightarrow>
   dquote \<notin> set a \<and> \<not> (list_ex blank a \<and> last a = escape_char)"
proof -
  let ?rest = "if as = [] then [] else CHR 0x20 # butlast (write_argv as)"
  assume "parse_command_line (butlast (write_argv (a # as))) = a # as"
  then have name: "fst (scan_program_name False (write_arg a @ ?rest)) = a"
    by (auto simp: parse_command_line_def butlast_write_argv split: prod.splits)
  have nq: "dquote \<notin> set a"
    using scan_program_name_no_quote [of False "write_arg a @ ?rest"] name by simp
  have "\<not> (list_ex blank a \<and> last a = escape_char)"
  proof
    assume b: "list_ex blank a \<and> last a = escape_char"
    then have ne: "a \<noteq> []" by auto
    from quote_chars_trailing [OF nq ne, of 0] b obtain k where k: "0 < k"
      "quote_chars 0 a = a @ replicate k escape_char @ [dquote]" by blast
    have "dquote \<notin> set (a @ replicate k escape_char)" using nq by simp
    then have "scan_program_name True ((a @ replicate k escape_char) @ dquote # ?rest) =
        (case scan_program_name True (dquote # ?rest) of
           (w, r) \<Rightarrow> ((a @ replicate k escape_char) @ w, r))"
      by (intro scan_program_name_plain) simp_all
    then have "length (fst (scan_program_name True (a @ replicate k escape_char @ dquote # ?rest)))
        \<ge> length a + k"
      by (simp split: prod.splits del: scan_program_name.simps)
    moreover have "write_arg a = dquote # a @ replicate k escape_char @ [dquote]"
      using b k by (auto simp: write_arg_def need_quotes_def list_ex_iff)
    ultimately have "length (fst (scan_program_name False (write_arg a @ ?rest))) \<ge> length a + k"
      by simp
    then show False using name k(1) by simp
  qed
  then show ?thesis using nq by simp
qed

lemma parse_command_line_cmd:
  "parse_command_line (butlast (''cmd /c '' @ write_argv (a # as))) = ''cmd'' # ''/c'' # a # as"
proof -
  have "parse_command_line (butlast (write_argv (''cmd'' # ''/c'' # a # as))) =
      ''cmd'' # ''/c'' # a # as"
    by (rule parse_command_line_roundtrip) (simp_all add: dquote_def blank_def)
  then show ?thesis by (simp only: cmd_prefix)
qed

text \<open>The two executables of the examples: in \<open>no_files\<close> nothing is detected, and in
  \<open>one_file\<close> the name \<open>prog.exe\<close> in double quotes is that of the console executable.\<close>

lemma is_gui_app_no_files: "is_gui_app no_files exe = - 1"
  by (simp add: is_gui_app_def no_files_def)

lemma is_gui_app_quoted: "is_gui_app one_file (dquote # ''prog.exe'' @ [dquote]) = 0"
  by code_simp

text \<open>
  \<^bold>\<open>C1\<close> (as amended). Let \<open>argv\<close> be non-empty, whatever the arguments hold (empty
  arguments, blanks, double quotes, runs of backslashes), and let the child split the
  command line that \<open>nt_spawnve\<close> builds by the rules of the run-time: the program name
  by its own rule, the arguments after it by the rule of the backslashes. When the
  subsystem of \<open>argv[0]\<close> was not detected, the line starts with \<open>cmd /c\<close> and splits into
  the two words \<open>cmd\<close> and \<open>/c\<close> followed by \<open>argv\<close> exactly. When it was detected, the
  line splits into \<open>argv\<close> exactly if and only if \<open>argv[0]\<close> holds no double quote and does
  not both hold a blank and end in a backslash. An argument is written in quotes if and
  only if it is empty or holds a space, a tab or a double quote; in a quoted argument
  every double quote is preceded by the escape character, and a run of escape characters
  before a double quote of the argument or before the closing quote is doubled.
\<close>

theorem nt_spawnve_cmdline_roundtrip:
  "(argv \<noteq> [] \<longrightarrow>
      (is_gui_app fs (hd argv) = - 1 \<longrightarrow>
         map_option parse_command_line (nt_spawnve_cmdline fs argv) =
           Some (''cmd'' # ''/c'' # argv)) \<and>
      (is_gui_app fs (hd argv) \<noteq> - 1 \<longrightarrow>
         (map_option parse_command_line (nt_spawnve_cmdline fs argv) = Some argv \<longleftrightarrow>
          dquote \<notin> set (hd argv) \<and>
          \<not> (list_ex blank (hd argv) \<and> last (hd argv) = escape_char)))) \<and>
   write_arg arg =
     (if arg = [] \<or> (\<exists>c\<in>set arg. c = CHR 0x20 \<or> c = CHR 0x09 \<or> c = dquote)
      then dquote # quote_chars 0 arg else arg) \<and>
   quote_chars 0 (replicate n escape_char @ dquote # s) =
     replicate (2 * n + 1) escape_char @ dquote # quote_chars 0 s \<and>
   quote_chars 0 (replicate n escape_char) = replicate (2 * n) escape_char @ [dquote]"
proof (intro conjI impI)
  assume ne: "argv \<noteq> []" and g: "is_gui_app fs (hd argv) = - 1"
  from ne obtain a as where argv: "argv = a # as" by (cases argv) auto
  show "map_option parse_command_line (nt_spawnve_cmdline fs argv) = Some (''cmd'' # ''/c'' # argv)"
    using g parse_command_line_cmd [of a as]
    by (simp add: argv nt_spawnve_cmdline_def nt_spawnve_flags_def del: append.simps)
next
  assume ne: "argv \<noteq> []" and g: "is_gui_app fs (hd argv) \<noteq> - 1"
  from ne obtain a as where argv: "argv = a # as" by (cases argv) auto
  have line: "nt_spawnve_cmdline fs argv = Some (butlast (write_argv (a # as)))"
    using g by (simp add: argv nt_spawnve_cmdline_def nt_spawnve_flags_def)
  show "map_option parse_command_line (nt_spawnve_cmdline fs argv) = Some argv \<longleftrightarrow>
          dquote \<notin> set (hd argv) \<and> \<not> (list_ex blank (hd argv) \<and> last (hd argv) = escape_char)"
  proof
    assume "map_option parse_command_line (nt_spawnve_cmdline fs argv) = Some argv"
    then have "parse_command_line (butlast (write_argv (a # as))) = a # as"
      using line argv by simp
    from parse_command_line_hd [OF this]
    show "dquote \<notin> set (hd argv) \<and> \<not> (list_ex blank (hd argv) \<and> last (hd argv) = escape_char)"
      by (simp add: argv)
  next
    assume "dquote \<notin> set (hd argv) \<and> \<not> (list_ex blank (hd argv) \<and> last (hd argv) = escape_char)"
    then have "parse_command_line (butlast (write_argv (a # as))) = a # as"
      by (intro parse_command_line_roundtrip) (auto simp: argv)
    then show "map_option parse_command_line (nt_spawnve_cmdline fs argv) = Some argv"
      using line argv by simp
  qed
next
  show "write_arg arg =
     (if arg = [] \<or> (\<exists>c\<in>set arg. c = CHR 0x20 \<or> c = CHR 0x09 \<or> c = dquote)
      then dquote # quote_chars 0 arg else arg)"
    by (auto simp: write_arg_def need_quotes_def list_ex_iff blank_def)
next
  show "quote_chars 0 (replicate n escape_char @ dquote # s) =
     replicate (2 * n + 1) escape_char @ dquote # quote_chars 0 s"
    by (rule quote_chars_escapes)
next
  show "quote_chars 0 (replicate n escape_char) = replicate (2 * n) escape_char @ [dquote]"
    by (rule quote_chars_escapes)
qed

theorem nt_spawnve_cmdline_roundtrip_witness:
  "[''prog.exe'', ''a b'', [], [escape_char, dquote], ''dir'' @ [escape_char]] \<noteq> [] \<and>
   is_gui_app one_file ''prog.exe'' \<noteq> - 1 \<and>
   map_option parse_command_line
     (nt_spawnve_cmdline one_file
        [''prog.exe'', ''a b'', [], [escape_char, dquote], ''dir'' @ [escape_char]]) =
     Some [''prog.exe'', ''a b'', [], [escape_char, dquote], ''dir'' @ [escape_char]] \<and>
   is_gui_app no_files ''prog'' = - 1 \<and>
   map_option parse_command_line (nt_spawnve_cmdline no_files [''prog'', ''a b'']) =
     Some [''cmd'', ''/c'', ''prog'', ''a b''] \<and>
   write_arg [escape_char, dquote] =
     [dquote, escape_char, escape_char, escape_char, dquote, dquote]"
  using nt_spawnve_cmdline_roundtrip
    [of "[''prog.exe'', ''a b'', [], [escape_char, dquote], ''dir'' @ [escape_char]]" one_file
      "[escape_char, dquote]" 1 "[]"]
    nt_spawnve_cmdline_roundtrip [of "[''prog'', ''a b'']" no_files "[]" 0 "[]"]
    is_gui_app_console is_gui_app_no_files [of "''prog''"]
  by (simp add: dquote_def blank_def escape_char_def)

text \<open>As the specification states it, the property fails in three runs. Where the executable cannot
  be read, the command line built for \<open>argv = [prog]\<close> is \<open>cmd /c prog\<close>, which splits
  into three arguments. Where \<open>argv[0]\<close> is the name of a console executable in double
  quotes, which \<open>is_gui_app\<close> strips before it opens the file, the quotes are written
  with escape characters, and the program name comes back with the escape characters
  and without the quotes. With an empty \<open>argv\<close> no command line is built.\<close>

theorem nt_spawnve_cmdline_counterexample:
  "nt_spawnve_cmdline no_files [''prog''] = Some ''cmd /c prog'' \<and>
   parse_command_line ''cmd /c prog'' = [''cmd'', ''/c'', ''prog''] \<and>
   parse_command_line ''cmd /c prog'' \<noteq> [''prog''] \<and>
   is_gui_app one_file (dquote # ''prog.exe'' @ [dquote]) = 0 \<and>
   nt_spawnve_cmdline one_file [dquote # ''prog.exe'' @ [dquote]] =
     Some (dquote # escape_char # dquote # ''prog.exe'' @ [escape_char, dquote, dquote]) \<and>
   parse_command_line (dquote # escape_char # dquote # ''prog.exe'' @ [escape_char, dquote, dquote]) =
     [escape_char # ''prog.exe'' @ [escape_char]] \<and>
   [escape_char # ''prog.exe'' @ [escape_char]] \<noteq> [dquote # ''prog.exe'' @ [dquote]] \<and>
   nt_spawnve_cmdline no_files [] = None"
proof -
  have a: "nt_spawnve_cmdline no_files [''prog''] = Some ''cmd /c prog''"
    by (simp add: nt_spawnve_cmdline_def nt_spawnve_flags_def is_gui_app_no_files
        write_argv_def write_arg_def need_quotes_def blank_def dquote_def)
  have b: "parse_command_line ''cmd /c prog'' = [''cmd'', ''/c'', ''prog'']"
    by (simp add: parse_command_line_def parse_args.simps blank_def dquote_def escape_char_def)
  have c: "nt_spawnve_cmdline one_file [dquote # ''prog.exe'' @ [dquote]] =
     Some (dquote # escape_char # dquote # ''prog.exe'' @ [escape_char, dquote, dquote])"
    using is_gui_app_quoted
    by (simp add: nt_spawnve_cmdline_def nt_spawnve_flags_def
        write_argv_def write_arg_def need_quotes_def blank_def dquote_def escape_char_def)
  have d: "parse_command_line (dquote # escape_char # dquote # ''prog.exe'' @ [escape_char, dquote, dquote]) =
     [escape_char # ''prog.exe'' @ [escape_char]]"
    by (simp add: parse_command_line_def parse_args.simps blank_def dquote_def escape_char_def)
  have e: "nt_spawnve_cmdline no_files [] = None"
    by (simp add: nt_spawnve_cmdline_def nt_spawnve_flags_def)
  show ?thesis using a b c d e is_gui_app_quoted by (simp add: dquote_def escape_char_def)
qed

subsection \<open>The classification of the executable\<close>

text \<open>
  \<^bold>\<open>C4\<close> (as amended). \<open>is_gui_app\<close> answers 0 (console) exactly when the file opens,
  both signatures are there and \<open>Subsystem\<close> is \<open>WINDOWS_CUI\<close>, \<open>OS2_CUI\<close> or
  \<open>POSIX_CUI\<close>, and 1 (GUI) for every other \<open>Subsystem\<close> of such a file. On a read
  failure (the file cannot be opened, the DOS signature or the NT signature is missing)
  it answers \<open>-1\<close>, and \<open>nt_spawnve\<close> then treats the executable as a console
  application started through \<open>cmd /c\<close>.
\<close>

theorem is_gui_app_classification:
  "is_gui_app fs exe =
     (case fs (exe_file exe) of
        None \<Rightarrow> - 1
      | Some img \<Rightarrow>
          if e_magic img \<noteq> IMAGE_DOS_SIGNATURE \<or> ntSignature img \<noteq> IMAGE_NT_SIGNATURE then - 1
          else if Subsystem img = IMAGE_SUBSYSTEM_WINDOWS_CUI \<or>
                  Subsystem img = IMAGE_SUBSYSTEM_OS2_CUI \<or>
                  Subsystem img = IMAGE_SUBSYSTEM_POSIX_CUI then 0
          else 1) \<and>
   nt_spawnve_flags fs (exe # args) = Some (is_gui_app fs exe = 1, is_gui_app fs exe = - 1)"
  by (auto simp: is_gui_app_def nt_spawnve_flags_def subsystem_switch_def Let_def
      IMAGE_SUBSYSTEM_defs split: option.splits)

theorem is_gui_app_classification_witness:
  "is_gui_app one_file ''prog.exe'' = 0 \<and>
   nt_spawnve_flags one_file [''prog.exe'', ''-v''] = Some (False, False) \<and>
   is_gui_app no_files ''prog.exe'' = - 1 \<and>
   nt_spawnve_flags no_files [''prog.exe'', ''-v''] = Some (False, True)"
  using is_gui_app_classification [of one_file "''prog.exe''" "[''-v'']"]
    is_gui_app_classification [of no_files "''prog.exe''" "[''-v'']"]
  by (simp add: one_file_def no_files_def exe_file_def console_image_def dquote_def
      IMAGE_DOS_SIGNATURE_def IMAGE_NT_SIGNATURE_def IMAGE_SUBSYSTEM_WINDOWS_CUI_def)

text \<open>As the specification states it, the property fails on a file that cannot be opened: the answer is not
  GUI, and \<open>nt_spawnve\<close> goes on with \<open>is_gui = FALSE\<close> and \<open>use_cmd = TRUE\<close>.\<close>

theorem is_gui_app_counterexample:
  "is_gui_app no_files ''prog.exe'' = - 1 \<and>
   is_gui_app no_files ''prog.exe'' \<noteq> 1 \<and>
   nt_spawnve_flags no_files [''prog.exe''] = Some (False, True)"
  by (simp add: is_gui_app_def nt_spawnve_flags_def no_files_def)

section \<open>terminals.c (POSIX part)\<close>

subsection \<open>\<open>allocate_pty_desc\<close> and \<open>gvd_new_tty\<close>\<close>

record term_handler =
  master_fd :: int
  slave_fd :: int
  slave_name :: string
  child_pid :: int

text \<open>A pointer to a handle: null, not yet assigned (the local of the caller before the
  callee has written it), or pointing to a handle.\<close>

datatype 'a pointer = Null | Unassigned | Ptr 'a

text \<open>The pty strategy compiled in, and what the system calls of the allocation answer:
  \<open>getpt\<close> and \<open>open\<close> of the clone device give the master descriptor; \<open>openpty\<close> gives
  its status and what it has left in \<open>master_fd\<close> and \<open>slave_fd\<close>; \<open>_getpty\<close> gives the
  slave name (or null) and the master descriptor; \<open>ptsname\<close> gives the slave name or
  null.\<close>

datatype pty_backend = USE_GETPT | USE_OPENPTY | USE_GETPTY | USE_CLONE_DEVICE | NOT_CONFIGURED

record pty_env =
  backend :: pty_backend
  getpt :: int
  openpty :: "int \<times> int \<times> int"
  getpty :: "string option \<times> int"
  open_clone_device :: int
  ptsname :: "int \<Rightarrow> string option"

text \<open>The result of \<open>allocate_pty_desc\<close>: the status, the value of \<open>*desc\<close> afterwards
  and the descriptors closed on the way.\<close>

definition close_all :: "int \<Rightarrow> int \<Rightarrow> int list" where
  "close_all master slave = (if master \<ge> 0 then [master] else []) @ (if slave \<ge> 0 then [slave] else [])"

definition allocate_pty_desc :: "pty_env \<Rightarrow> int \<times> term_handler pointer \<times> int list" where
  "allocate_pty_desc env =
     (if backend env = NOT_CONFIGURED then (- 1, Unassigned, [])
      else
        let (status, slave, master, name) =
              (case backend env of
                 USE_GETPT \<Rightarrow> (0, - 1, getpt env, None)
               | USE_OPENPTY \<Rightarrow>
                   (case openpty env of (st, m, s) \<Rightarrow> (st, s, m, None))
               | USE_GETPTY \<Rightarrow>
                   (case getpty env of (n, m) \<Rightarrow> (if n = None then - 1 else 0, - 1, m, n))
               | _ \<Rightarrow> (0, - 1, open_clone_device env, None))
        in
          if status \<noteq> 0 \<or> master < 0 then (- 1, Null, close_all master slave)
          else
            (case (if name = None then ptsname env master else name) of
               None \<Rightarrow> (- 1, Null, close_all master slave)
             | Some n \<Rightarrow>
                 (0, Ptr \<lparr>master_fd = master, slave_fd = slave, slave_name = take 31 n,
                          child_pid = - 1\<rparr>, [])))"

datatype fault = Null_Dereference | Unassigned_Dereference

text \<open>\<open>gvd_new_tty\<close> keeps the status in a local it never reads, hands
  \<open>desc->master_fd\<close> to \<open>child_setup_tty\<close> and returns \<open>desc\<close>. The result is the
  fault of the read of \<open>desc->master_fd\<close>, or the descriptor given to
  \<open>child_setup_tty\<close> with the pointer returned.\<close>

definition gvd_new_tty :: "pty_env \<Rightarrow> fault + (int \<times> term_handler pointer)" where
  "gvd_new_tty env =
     (case allocate_pty_desc env of
        (status, desc, closed) \<Rightarrow>
          (case desc of
             Null \<Rightarrow> Inl Null_Dereference
           | Unassigned \<Rightarrow> Inl Unassigned_Dereference
           | Ptr d \<Rightarrow> Inr (master_fd d, desc)))"

definition no_pty_env :: pty_env where
  "no_pty_env = \<lparr>backend = USE_GETPT, getpt = - 1, openpty = (- 1, - 1, - 1),
     getpty = (None, - 1), open_clone_device = - 1, ptsname = (\<lambda>fd. None)\<rparr>"

text \<open>
  \<^bold>\<open>C9\<close>. In every environment in which the allocation fails with \<open>-1\<close> and a null
  \<open>*desc\<close>, \<open>gvd_new_tty\<close> reads \<open>desc->master_fd\<close> through the null pointer; the status
  plays no part in what it does. Such environments exist: \<open>getpt\<close> answering \<open>-1\<close> is one.
\<close>

theorem gvd_new_tty_null_dereference:
  "allocate_pty_desc env = (- 1, Null, closed) \<Longrightarrow> gvd_new_tty env = Inl Null_Dereference"
  by (simp add: gvd_new_tty_def)

theorem gvd_new_tty_null_dereference_witness:
  "allocate_pty_desc no_pty_env = (- 1, Null, []) \<and> gvd_new_tty no_pty_env = Inl Null_Dereference"
proof -
  have a: "allocate_pty_desc no_pty_env = (- 1, Null, [])"
    by (simp add: allocate_pty_desc_def no_pty_env_def close_all_def)
  show ?thesis using a gvd_new_tty_null_dereference [OF a] by simp
qed

subsection \<open>\<open>gvd_waitpid\<close>\<close>

text \<open>A child process as the kernel sees it from the moment of the call: the time in
  milliseconds after which it has exited (\<open>None\<close>: it never does), and what it leaves:
  the wait status of \<open>waitpid\<close> on POSIX, the exit code on Windows.\<close>

record child =
  exits_after :: "nat option"
  wait_status :: int
  exit_code :: "32 word"

text \<open>\<open>waitpid (pid, &status, 0)\<close> blocks until the child has exited: it returns after
  \<open>exits_after\<close> milliseconds with the wait status, or never. \<open>WEXITSTATUS\<close> is bits 8
  to 15 of the status.\<close>

definition WEXITSTATUS :: "int \<Rightarrow> int" where
  "WEXITSTATUS status = (status div 256) mod 256"

definition gvd_waitpid :: "child \<Rightarrow> (int \<times> nat) option" where
  "gvd_waitpid c =
     (case exits_after c of
        None \<Rightarrow> None
      | Some t \<Rightarrow> Some (WEXITSTATUS (wait_status c), t))"

subsection \<open>\<open>__gnat_expect_poll\<close> over \<open>select\<close>\<close>

record timeval =
  tv_sec :: int
  tv_usec :: int

record select_args =
  nfds :: int
  readfds :: "int set"
  exceptfds :: "int set"
  timeout_arg :: "timeval option"

record select_result =
  sel_ready :: int
  sel_rset :: "int set"
  sel_eset :: "int set"

text \<open>The environment of the POSIX poll: what the \<open>k\<close>-th call of \<open>select\<close> answers to
  its arguments (its return value and the two sets as it leaves them), whether the build
  is the HP-UX one, and there whether \<open>TIOCREQCHECK\<close> in round \<open>k\<close> reports a
  \<open>TIOCCLOSE\<close> request on a descriptor. Descriptor sets are sets of integers: the
  descriptors are taken to be in the range of an \<open>fd_set\<close>, outside of which \<open>FD_SET\<close>
  is undefined.\<close>

record posix_env =
  sys_select :: "nat \<Rightarrow> select_args \<Rightarrow> select_result"
  hpux :: bool
  tiocclose :: "nat \<Rightarrow> int \<Rightarrow> bool"

text \<open>The arguments of \<open>select\<close>. C division truncates: \<open>sdiv\<close> and \<open>smod\<close>. The last
  argument is the null pointer exactly when \<open>timeout\<close> is \<open>-1\<close>.\<close>

definition select_call :: "int list \<Rightarrow> int \<Rightarrow> select_args" where
  "select_call fd timeout =
     \<lparr>nfds = foldl max 0 fd + 1, readfds = set fd, exceptfds = set fd,
      timeout_arg =
        (if timeout = - 1 then None
         else Some \<lparr>tv_sec = timeout sdiv 1000, tv_usec = (timeout smod 1000) * 1000\<rparr>)\<rparr>"

text \<open>The first \<open>for\<close> loop after a positive \<open>ready\<close>: \<open>is_set[i]\<close> for every \<open>i < num_fd\<close>.
  The array \<open>is_set\<close> has \<open>num_fd\<close> cells or more.\<close>

definition read_flags :: "int list \<Rightarrow> int set \<Rightarrow> int list \<Rightarrow> int list" where
  "read_flags fd rs is_set = map (\<lambda>f. if f \<in> rs then 1 else 0) fd @ drop (length fd) is_set"

text \<open>The HP-UX loop over the exception set: \<open>None\<close> is the \<open>return -1\<close> from inside
  the loop, \<open>Some ready\<close> the counter after it.\<close>

fun hpux_requests :: "(int \<Rightarrow> bool) \<Rightarrow> int set \<Rightarrow> bool \<Rightarrow> int list \<Rightarrow> int \<Rightarrow> int option" where
  "hpux_requests close es received [] ready = Some ready"
| "hpux_requests close es received (f # fd) ready =
     (if f \<in> es then
        (if \<not> received \<and> close f then None
         else hpux_requests close es received fd (ready - 1))
      else hpux_requests close es received fd ready)"

definition after_select ::
  "posix_env \<Rightarrow> nat \<Rightarrow> int list \<Rightarrow> select_result \<Rightarrow> int list \<Rightarrow> int option \<times> int list" where
  "after_select env k fd r is_set =
     (if sel_ready r > 0 then
        (if hpux env
         then hpux_requests (tiocclose env k) (sel_eset r) (list_ex (\<lambda>f. f \<in> sel_rset r) fd) fd
                (sel_ready r)
         else Some (sel_ready r),
         read_flags fd (sel_rset r) is_set)
      else (Some (sel_ready r), is_set))"

text \<open>The \<open>do \<dots> while\<close> loop, from round \<open>k\<close> on. The loop may go on for ever; the last
  argument bounds the number of rounds, and \<open>None\<close> says that the function has not
  returned within them.\<close>

fun poll_loop ::
  "posix_env \<Rightarrow> int list \<Rightarrow> int \<Rightarrow> nat \<Rightarrow> int list \<Rightarrow> nat \<Rightarrow> (int \<times> int list) option" where
  "poll_loop env fd timeout k is_set 0 = None"
| "poll_loop env fd timeout k is_set (Suc rounds) =
     (case after_select env k fd (sys_select env k (select_call fd timeout)) is_set of
        (None, is_set') \<Rightarrow> Some (- 1, is_set')
      | (Some ready, is_set') \<Rightarrow>
          if timeout = - 1 \<and> ready = 0 then poll_loop env fd timeout (Suc k) is_set' rounds
          else Some (ready, is_set'))"

definition gnat_expect_poll ::
  "posix_env \<Rightarrow> int list \<Rightarrow> int \<Rightarrow> int list \<Rightarrow> nat \<Rightarrow> (int \<times> int list) option" where
  "gnat_expect_poll env fd timeout is_set rounds = poll_loop env fd timeout 0 is_set rounds"

section \<open>terminals.c (WIN32 part): waiting and polling\<close>

subsection \<open>\<open>gvd_waitpid\<close>\<close>

text \<open>
  The two calls of the Windows API, on the child above. \<open>WaitForSingleObject\<close> with a
  time-out in milliseconds returns \<open>WAIT_OBJECT_0\<close> once the process has exited, or
  \<open>WAIT_TIMEOUT\<close> when the time-out has passed first; \<open>INFINITE\<close> is no time-out. The
  result carries the time the call took; \<open>None\<close> is a call that never returns.
  \<open>GetExitCodeProcess\<close> gives the exit code of a process that has exited and
  \<open>STILL_ACTIVE\<close> otherwise.
\<close>

definition INFINITE :: "32 word" where "INFINITE = 0xFFFFFFFF"
definition WAIT_OBJECT_0 :: "32 word" where "WAIT_OBJECT_0 = 0"
definition WAIT_TIMEOUT :: "32 word" where "WAIT_TIMEOUT = 258"
definition STILL_ACTIVE :: "32 word" where "STILL_ACTIVE = 259"

definition WaitForSingleObject :: "child \<Rightarrow> 32 word \<Rightarrow> (32 word \<times> nat) option" where
  "WaitForSingleObject c dwMilliseconds =
     (case exits_after c of
        Some t \<Rightarrow>
          if dwMilliseconds = INFINITE \<or> t \<le> unat dwMilliseconds then Some (WAIT_OBJECT_0, t)
          else Some (WAIT_TIMEOUT, unat dwMilliseconds)
      | None \<Rightarrow>
          if dwMilliseconds = INFINITE then None
          else Some (WAIT_TIMEOUT, unat dwMilliseconds))"

definition GetExitCodeProcess :: "child \<Rightarrow> nat \<Rightarrow> 32 word" where
  "GetExitCodeProcess c now =
     (case exits_after c of
        Some t \<Rightarrow> if t \<le> now then exit_code c else STILL_ACTIVE
      | None \<Rightarrow> STILL_ACTIVE)"

datatype win_handle = hProcess | hThread

text \<open>\<open>gvd_waitpid\<close> of the WIN32 part: the value returned, the time the call took and
  the handles closed.\<close>

definition gvd_waitpid_win32 :: "child \<Rightarrow> (int \<times> nat \<times> win_handle list) option" where
  "gvd_waitpid_win32 c =
     (case WaitForSingleObject c 0 of
        None \<Rightarrow> None
      | Some (res, t) \<Rightarrow> Some (sint (GetExitCodeProcess c t), t, [hThread, hProcess]))"

subsection \<open>\<open>__gnat_expect_poll\<close> over \<open>PeekNamedPipe\<close>\<close>

text \<open>The environment is what \<open>PeekNamedPipe\<close> answers for the pipe of a descriptor at a
  time (milliseconds slept since the call): \<open>None\<close> when it fails, or the number of
  bytes available.\<close>

type_synonym peek_env = "nat \<Rightarrow> int \<Rightarrow> 32 word option"

datatype peek_round = Peek_Failed | Pipe_Ready nat | Nothing_Ready

fun peek_pipes :: "(int \<Rightarrow> 32 word option) \<Rightarrow> int list \<Rightarrow> nat \<Rightarrow> peek_round" where
  "peek_pipes peek [] i = Nothing_Ready"
| "peek_pipes peek (f # fd) i =
     (case peek f of
        None \<Rightarrow> Peek_Failed
      | Some avail \<Rightarrow> if avail > 0 then Pipe_Ready i else peek_pipes peek fd (Suc i))"

text \<open>The \<open>while (1)\<close> loop; the last argument bounds the number of rounds as above. In
  the infinite mode (\<open>infinite = 1\<close>) \<open>timeout\<close> only goes down and is never read.\<close>

fun win32_poll_loop ::
  "peek_env \<Rightarrow> int list \<Rightarrow> bool \<Rightarrow> int \<Rightarrow> int \<Rightarrow> nat \<Rightarrow> int list \<Rightarrow> nat \<Rightarrow>
   (int \<times> int list) option" where
  "win32_poll_loop peek fd infinite_wait timeout delay slept is_set 0 = None"
| "win32_poll_loop peek fd infinite_wait timeout delay slept is_set (Suc rounds) =
     (case peek_pipes (peek slept) fd 0 of
        Peek_Failed \<Rightarrow> Some (- 1, is_set)
      | Pipe_Ready i \<Rightarrow> Some (1, is_set[i := 1])
      | Nothing_Ready \<Rightarrow>
          if \<not> infinite_wait \<and> timeout \<le> 0 then Some (0, is_set)
          else win32_poll_loop peek fd infinite_wait (timeout - delay)
                 (if delay < 100 then delay + 10 else delay) (slept + nat delay) is_set rounds)"

definition gnat_expect_poll_win32 ::
  "peek_env \<Rightarrow> int list \<Rightarrow> int \<Rightarrow> int list \<Rightarrow> nat \<Rightarrow> (int \<times> int list) option" where
  "gnat_expect_poll_win32 peek fd timeout is_set rounds =
     win32_poll_loop peek fd (timeout < 0) timeout 5 0
       (replicate (length fd) 0 @ drop (length fd) is_set) rounds"

section \<open>Waiting for the child\<close>

definition running_child :: child where
  "running_child = \<lparr>exits_after = Some 1000, wait_status = 1792, exit_code = 7\<rparr>"

text \<open>Whatever the child does, the call takes no time, and it returns the exit code
  only of a child that has exited already.\<close>

lemma gvd_waitpid_win32_immediate:
  "gvd_waitpid_win32 c =
     Some (if exits_after c = Some 0 then sint (exit_code c) else 259, 0, [hThread, hProcess])"
  by (auto simp: gvd_waitpid_win32_def WaitForSingleObject_def GetExitCodeProcess_def
      INFINITE_def STILL_ACTIVE_def split: option.splits)

text \<open>
  \<^bold>\<open>C8\<close> (the code at a child that is still running). The WIN32 \<open>gvd_waitpid\<close> calls
  \<open>WaitForSingleObject\<close> with a time-out of 0: it never waits. For a child that exits
  one second later with code 7 it returns at once with \<open>STILL_ACTIVE\<close> (259) and closes
  both handles, where the POSIX \<open>gvd_waitpid\<close> returns 7 after that second.
\<close>

theorem gvd_waitpid_win32_running_child:
  "gvd_waitpid_win32 running_child = Some (259, 0, [hThread, hProcess]) \<and>
   gvd_waitpid running_child = Some (7, 1000)"
  by (simp add: gvd_waitpid_win32_immediate gvd_waitpid_def running_child_def WEXITSTATUS_def)

section \<open>Polling\<close>

subsection \<open>The rounds of the POSIX poll\<close>

text \<open>The HP-UX loop in closed form: it returns \<open>-1\<close> when nothing is readable and a
  descriptor of \<open>fds\<close> in the exception set has a \<open>TIOCCLOSE\<close> request; otherwise it takes
  one off \<open>ready\<close> for every entry of \<open>fds\<close> in the exception set.\<close>

lemma hpux_requests_eq:
  "hpux_requests close es received fd n =
     (if \<not> received \<and> list_ex (\<lambda>f. f \<in> es \<and> close f) fd then None
      else Some (n - int (length (filter (\<lambda>f. f \<in> es) fd))))"
  by (induction fd arbitrary: n) auto

text \<open>The value of round \<open>k\<close>: what the function returns if it returns from that round.
  It is what \<open>select\<close> returned, but for the HP-UX loop after a positive count.\<close>

definition poll_value :: "posix_env \<Rightarrow> nat \<Rightarrow> int list \<Rightarrow> int \<Rightarrow> int" where
  "poll_value env k fd timeout =
     (let res = sys_select env k (select_call fd timeout) in
      if hpux env \<and> 0 < sel_ready res then
        (if \<not> list_ex (\<lambda>f. f \<in> sel_rset res) fd \<and>
            list_ex (\<lambda>f. f \<in> sel_eset res \<and> tiocclose env k f) fd
         then - 1
         else sel_ready res - int (length (filter (\<lambda>f. f \<in> sel_eset res) fd)))
      else sel_ready res)"

text \<open>On every build but HP-UX the value of a round is what \<open>select\<close> returned.\<close>

lemma poll_value_select:
  "\<not> hpux env \<Longrightarrow>
   poll_value env k fd timeout = sel_ready (sys_select env k (select_call fd timeout))"
  by (simp add: poll_value_def)

text \<open>\<open>poll_value\<close> is the first component of \<open>after_select\<close>, with \<open>-1\<close> for the
  \<open>return -1\<close> of the HP-UX loop.\<close>

lemma after_select_value:
  "fst (after_select env k fd (sys_select env k (select_call fd timeout)) is_set) =
     (if hpux env \<and> 0 < sel_ready (sys_select env k (select_call fd timeout)) \<and>
         \<not> list_ex (\<lambda>f. f \<in> sel_rset (sys_select env k (select_call fd timeout))) fd \<and>
         list_ex (\<lambda>f. f \<in> sel_eset (sys_select env k (select_call fd timeout)) \<and> tiocclose env k f) fd
      then None else Some (poll_value env k fd timeout))"
  by (simp add: after_select_def poll_value_def hpux_requests_eq Let_def)

lemma after_select_none:
  "fst (after_select env k fd (sys_select env k (select_call fd timeout)) is_set) = None \<Longrightarrow>
   poll_value env k fd timeout = - 1"
  by (auto simp: after_select_value poll_value_def Let_def split: if_splits)



text \<open>Conversely the function returns from the first round whose value ends the loop.\<close>

lemma poll_loop_returns:
  "\<forall>j<n. timeout = - 1 \<and> poll_value env (k + j) fd timeout = 0 \<Longrightarrow>
   \<not> (timeout = - 1 \<and> poll_value env (k + n) fd timeout = 0) \<Longrightarrow>
   \<exists>s. poll_loop env fd timeout k is_set (Suc n + m) = Some (poll_value env (k + n) fd timeout, s)"
proof (induction n arbitrary: k is_set)
  case 0
  let ?res = "sys_select env k (select_call fd timeout)"
  obtain v s where as: "after_select env k fd ?res is_set = (v, s)"
    by (cases "after_select env k fd ?res is_set") auto
  have v: "v = fst (after_select env k fd ?res is_set)" using as by simp
  show ?case
  proof (cases v)
    case None
    then have "poll_value env k fd timeout = - 1" using after_select_none v by metis
    then show ?thesis using as None by simp
  next
    case (Some x)
    then have "x = poll_value env k fd timeout"
      using v after_select_value [of env k fd timeout is_set] by (auto split: if_splits)
    then show ?thesis using as Some "0.prems" by auto
  qed
next
  case (Suc n)
  let ?res = "sys_select env k (select_call fd timeout)"
  obtain v s where as: "after_select env k fd ?res is_set = (v, s)"
    by (cases "after_select env k fd ?res is_set") auto
  have v: "v = fst (after_select env k fd ?res is_set)" using as by simp
  have z: "timeout = - 1" "poll_value env k fd timeout = 0"
    using Suc.prems(1) by (auto dest: spec [of _ 0])
  have "v = Some 0"
    using v z after_select_value [of env k fd timeout is_set]
    by (auto simp: poll_value_def Let_def split: if_splits)
  then have step: "poll_loop env fd timeout k is_set (Suc (Suc n) + m) =
      poll_loop env fd timeout (Suc k) s (Suc n + m)"
    using as z by simp
  have a: "\<forall>j<n. timeout = - 1 \<and> poll_value env (Suc k + j) fd timeout = 0"
    using Suc.prems(1) by (auto dest: spec [of _ "Suc _"])
  have b: "\<not> (timeout = - 1 \<and> poll_value env (Suc k + n) fd timeout = 0)"
    using Suc.prems(2) by simp
  from Suc.IH [OF a b, of s] show ?case using step by simp
qed

subsection \<open>The rounds of the WIN32 poll\<close>

text \<open>The delay of round \<open>k\<close> and the time slept before it, as the loop computes them:
  the delay starts at 5 and grows by 10 while it is below \<open>MAX_DELAY\<close>.\<close>

fun delay_at :: "nat \<Rightarrow> int" where
  "delay_at 0 = 5"
| "delay_at (Suc k) = (if delay_at k < 100 then delay_at k + 10 else delay_at k)"

fun slept_at :: "nat \<Rightarrow> nat" where
  "slept_at 0 = 0"
| "slept_at (Suc k) = slept_at k + nat (delay_at k)"

lemma delay_at_pos: "5 \<le> delay_at k"
  by (induction k) auto

lemma slept_at_Suc: "int (slept_at (Suc k)) = int (slept_at k) + delay_at k"
  using delay_at_pos [of k] by simp





subsection \<open>What the poll returns\<close>

lemma win32_poll_loop_returns:
  "\<not> infinite_wait \<Longrightarrow> 0 < delay \<Longrightarrow> nat timeout < rounds \<Longrightarrow>
   win32_poll_loop pk fd infinite_wait timeout delay slept is_set rounds \<noteq> None"
proof (induction rounds arbitrary: timeout delay slept)
  case 0
  then show ?case by simp
next
  case (Suc rounds)
  show ?case
  proof (cases "timeout \<le> 0")
    case True
    then show ?thesis using Suc.prems by (auto split: peek_round.splits)
  next
    case False
    have "win32_poll_loop pk fd infinite_wait (timeout - delay)
       (if delay < 100 then delay + 10 else delay) (slept + nat delay) is_set rounds \<noteq> None"
      by (rule Suc.IH) (use Suc.prems False in auto)
    then show ?thesis by (auto split: peek_round.splits)
  qed
qed

text \<open>With a finite time-out the WIN32 poll returns: \<open>timeout\<close> goes down by the delay in
  every round.\<close>

lemma gnat_expect_poll_win32_returns:
  "0 \<le> timeout \<Longrightarrow> gnat_expect_poll_win32 pk fd timeout is_set (Suc (nat timeout)) \<noteq> None"
  unfolding gnat_expect_poll_win32_def
  by (rule win32_poll_loop_returns) simp_all











subsection \<open>Negative time-outs\<close>

text \<open>A \<open>select\<close> that refuses a time value with a negative field (it returns -1, with
  \<open>EINVAL\<close>) and otherwise never reports anything; a pipe that never holds data.\<close>

definition einval_env :: posix_env where
  "einval_env =
     \<lparr>sys_select = (\<lambda>k args.
        case timeout_arg args of
          None \<Rightarrow> \<lparr>sel_ready = 0, sel_rset = {}, sel_eset = {}\<rparr>
        | Some tv \<Rightarrow>
            if tv_sec tv < 0 \<or> tv_usec tv < 0
            then \<lparr>sel_ready = - 1, sel_rset = readfds args, sel_eset = exceptfds args\<rparr>
            else \<lparr>sel_ready = 0, sel_rset = {}, sel_eset = {}\<rparr>),
      hpux = False, tiocclose = (\<lambda>k f. False)\<rparr>"

definition never_ready :: peek_env where
  "never_ready = (\<lambda>t f. Some 0)"

lemma peek_pipes_never_ready: "peek_pipes (never_ready t) fd i = Nothing_Ready"
  by (induction fd arbitrary: i) (simp_all add: never_ready_def)

lemma win32_poll_loop_never_ready:
  "win32_poll_loop never_ready fd True timeout delay slept is_set rounds = None"
  by (induction rounds arbitrary: timeout delay slept) (simp_all add: peek_pipes_never_ready)

lemma poll_loop_einval_forever:
  "poll_loop einval_env fd (- 1) k is_set rounds = None"
  by (induction rounds arbitrary: k)
     (simp_all add: einval_env_def select_call_def after_select_def)

text \<open>
  \<^bold>\<open>C7\<close> (the code at \<open>timeout = -2\<close>). Both tests of the POSIX poll are
  \<open>timeout == -1\<close>. At \<open>timeout = -2\<close> it hands \<open>select\<close> the time value
  \<open>{0, -2000}\<close> and not the null pointer, and it leaves the loop after the first round,
  whatever \<open>select\<close> answers: with a \<open>select\<close> that refuses the negative time value it
  returns \<open>-1\<close> at once. It does not wait. At \<open>timeout = -1\<close> the same \<open>select\<close> makes it
  wait for ever, and so does the WIN32 poll of the same file at \<open>timeout = -2\<close>, whose
  test is \<open>timeout < 0\<close>.
\<close>

theorem gnat_expect_poll_negative_timeout:
  "timeout_arg (select_call [3] (- 2)) = Some \<lparr>tv_sec = 0, tv_usec = - 2000\<rparr> \<and>
   gnat_expect_poll einval_env [3] (- 2) [0] 1 = Some (- 1, [0]) \<and>
   (\<forall>env. \<exists>res. gnat_expect_poll env [3] (- 2) [0] 1 = Some res) \<and>
   (\<forall>rounds. gnat_expect_poll einval_env [3] (- 1) [0] rounds = None) \<and>
   (\<forall>rounds. gnat_expect_poll_win32 never_ready [3] (- 2) [0] rounds = None)"
proof -
  have tv: "timeout_arg (select_call [3] (- 2)) = Some \<lparr>tv_sec = 0, tv_usec = - 2000\<rparr>"
    by (simp add: select_call_def signed_divide_int_def signed_modulo_int_def)
  have "gnat_expect_poll einval_env [3] (- 2) [0] 1 = Some (- 1, [0])"
    using tv by (simp add: gnat_expect_poll_def einval_env_def after_select_def)
  moreover have "\<forall>env. \<exists>res. gnat_expect_poll env [3] (- 2) [0] 1 = Some res"
    by (simp add: gnat_expect_poll_def split: prod.splits option.splits)
  moreover have "\<forall>rounds. gnat_expect_poll einval_env [3] (- 1) [0] rounds = None"
    by (simp add: gnat_expect_poll_def poll_loop_einval_forever)
  moreover have "\<forall>rounds. gnat_expect_poll_win32 never_ready [3] (- 2) [0] rounds = None"
    by (simp add: gnat_expect_poll_win32_def win32_poll_loop_never_ready)
  ultimately show ?thesis using tv by simp
qed

section \<open>winlow.c\<close>

subsection \<open>Statuses, flags and the calls of the native API\<close>

type_synonym NTSTATUS = "32 word"
type_synonym WCHAR = "16 word"
type_synonym wstring = "WCHAR list"

text \<open>\<open>NTSTATUS\<close> is a signed 32-bit value and \<open>NT_SUCCESS\<close> tests that it is not negative.
  The values are those of the DDK headers.\<close>

definition NT_SUCCESS :: "NTSTATUS \<Rightarrow> bool" where
  "NT_SUCCESS Status \<longleftrightarrow> 0 \<le> sint Status"

definition STATUS_SUCCESS :: NTSTATUS where "STATUS_SUCCESS = 0"
definition STATUS_NO_MORE_FILES :: NTSTATUS where "STATUS_NO_MORE_FILES = 0x80000006"
definition STATUS_ACCESS_DENIED :: NTSTATUS where "STATUS_ACCESS_DENIED = 0xC0000022"
definition STATUS_OBJECT_NAME_NOT_FOUND :: NTSTATUS where "STATUS_OBJECT_NAME_NOT_FOUND = 0xC0000034"
definition STATUS_OBJECT_PATH_NOT_FOUND :: NTSTATUS where "STATUS_OBJECT_PATH_NOT_FOUND = 0xC000003A"
definition STATUS_SHARING_VIOLATION :: NTSTATUS where "STATUS_SHARING_VIOLATION = 0xC0000043"
definition STATUS_DELETE_PENDING :: NTSTATUS where "STATUS_DELETE_PENDING = 0xC0000056"
definition STATUS_DIRECTORY_NOT_EMPTY :: NTSTATUS where "STATUS_DIRECTORY_NOT_EMPTY = 0xC0000101"
definition STATUS_CANNOT_DELETE :: NTSTATUS where "STATUS_CANNOT_DELETE = 0xC0000121"

lemmas STATUS_defs =
  STATUS_SUCCESS_def STATUS_NO_MORE_FILES_def STATUS_ACCESS_DENIED_def
  STATUS_OBJECT_NAME_NOT_FOUND_def STATUS_OBJECT_PATH_NOT_FOUND_def
  STATUS_SHARING_VIOLATION_def STATUS_DELETE_PENDING_def STATUS_DIRECTORY_NOT_EMPTY_def
  STATUS_CANNOT_DELETE_def

definition FILE_ATTRIBUTE_READONLY :: "32 word" where "FILE_ATTRIBUTE_READONLY = 0x1"
definition FILE_ATTRIBUTE_DIRECTORY :: "32 word" where "FILE_ATTRIBUTE_DIRECTORY = 0x10"
definition FILE_ATTRIBUTE_NORMAL :: "32 word" where "FILE_ATTRIBUTE_NORMAL = 0x80"

definition DELETE :: "32 word" where "DELETE = 0x00010000"
definition SYNCHRONIZE :: "32 word" where "SYNCHRONIZE = 0x00100000"
definition FILE_LIST_DIRECTORY :: "32 word" where "FILE_LIST_DIRECTORY = 0x0001"
definition FILE_WRITE_ATTRIBUTES :: "32 word" where "FILE_WRITE_ATTRIBUTES = 0x0100"

definition FILE_SHARE_DELETE :: "32 word" where "FILE_SHARE_DELETE = 0x4"
definition FILE_SHARE_VALID_FLAGS :: "32 word" where "FILE_SHARE_VALID_FLAGS = 0x7"

definition FILE_SYNCHRONOUS_IO_NONALERT :: "32 word" where "FILE_SYNCHRONOUS_IO_NONALERT = 0x20"
definition FILE_DELETE_ON_CLOSE :: "32 word" where "FILE_DELETE_ON_CLOSE = 0x1000"
definition FILE_OPEN_FOR_BACKUP_INTENT :: "32 word" where "FILE_OPEN_FOR_BACKUP_INTENT = 0x4000"

lemmas FILE_defs =
  FILE_ATTRIBUTE_READONLY_def FILE_ATTRIBUTE_DIRECTORY_def FILE_ATTRIBUTE_NORMAL_def
  DELETE_def SYNCHRONIZE_def FILE_LIST_DIRECTORY_def FILE_WRITE_ATTRIBUTES_def
  FILE_SHARE_DELETE_def FILE_SHARE_VALID_FLAGS_def FILE_SYNCHRONOUS_IO_NONALERT_def
  FILE_DELETE_ON_CLOSE_def FILE_OPEN_FOR_BACKUP_INTENT_def

definition MAX_PATH :: nat where "MAX_PATH = 260"

text \<open>A wide string literal.\<close>

definition L :: "string \<Rightarrow> wstring" where
  "L s = map of_char s"

text \<open>
  The calls the two functions make, in the order they make them, with the arguments that
  matter and the status returned: \<open>NtQueryAttributesFile\<close> on a name (the target, or an
  entry relative to the directory handle), \<open>NtOpenFile\<close> on the target with its access
  mask, share mode and open options, \<open>NtSetInformationFile\<close> with the basic information,
  with a rename and with the delete disposition, \<open>NtQueryDirectoryFile\<close> with its
  \<open>RestartScan\<close> flag, \<open>NtQueryInformationFile\<close> for the internal information,
  \<open>NtOpenFile\<close> relative to the open handle, \<open>NtClose\<close> and \<open>Sleep\<close>.
\<close>

datatype handle_name = attributes_handle | target_handle | reopened_handle

datatype nt_call =
    QueryAttributes wstring NTSTATUS
  | OpenFile "32 word" "32 word" "32 word" NTSTATUS
  | SetBasicInformation "32 word" NTSTATUS
  | QueryDirectory bool NTSTATUS
  | QueryInternalInformation NTSTATUS
  | Rename wstring NTSTATUS
  | SetDisposition NTSTATUS
  | OpenRelative "32 word" "32 word" "32 word" NTSTATUS
  | Close handle_name
  | Sleep nat

subsection \<open>\<open>is_dir_empty\<close>\<close>

text \<open>
  What one call of \<open>is_dir_empty\<close> finds: the status of the first
  \<open>NtQueryDirectoryFile\<close> and the entries it has put in the buffer (the first entry and
  those chained behind it by \<open>NextEntryOffset\<close>; an entry is the last one of its page when
  its \<open>NextEntryOffset\<close> is 0), the answers of the later calls (a status and a page; when
  they are used up the enumeration answers \<open>STATUS_NO_MORE_FILES\<close>), and the status of
  \<open>NtQueryAttributesFile\<close> on an entry name.
\<close>

type_synonym fni_page = "wstring \<times> wstring list"

record dir_env =
  first_query :: NTSTATUS
  first_page :: fni_page
  next_queries :: "(NTSTATUS \<times> fni_page) list"
  entry_status :: "wstring \<Rightarrow> NTSTATUS"

text \<open>The inner \<open>do \<dots> while\<close> loop from the cursor to the end of the page: \<open>True\<close> when
  an entry is there (the function returns \<open>STATUS_DIRECTORY_NOT_EMPTY\<close>).\<close>

fun scan_entries :: "(wstring \<Rightarrow> NTSTATUS) \<Rightarrow> wstring list \<Rightarrow> bool \<times> nt_call list" where
  "scan_entries query [] = (False, [])"
| "scan_entries query (fname # entries) =
     (let status = query fname in
      if status \<noteq> STATUS_DELETE_PENDING \<and> status \<noteq> STATUS_OBJECT_NAME_NOT_FOUND \<and>
         status \<noteq> STATUS_OBJECT_PATH_NOT_FOUND
      then (True, [QueryAttributes fname status])
      else (case scan_entries query entries of
              (found, calls) \<Rightarrow> (found, QueryAttributes fname status # calls)))"

text \<open>The outer loop: the entries from the cursor, then the next page as long as the
  query succeeds.\<close>

fun scan_pages ::
  "(wstring \<Rightarrow> NTSTATUS) \<Rightarrow> wstring list \<Rightarrow> (NTSTATUS \<times> fni_page) list \<Rightarrow> NTSTATUS \<times> nt_call list" where
  "scan_pages query entries later =
     (case scan_entries query entries of
        (True, calls) \<Rightarrow> (STATUS_DIRECTORY_NOT_EMPTY, calls)
      | (False, calls) \<Rightarrow>
          (case later of
             [] \<Rightarrow> (STATUS_SUCCESS, calls @ [QueryDirectory False STATUS_NO_MORE_FILES])
           | (status, (fname, entries')) # later' \<Rightarrow>
               if NT_SUCCESS status then
                 (case scan_pages query (fname # entries') later' of
                    (result, calls') \<Rightarrow> (result, calls @ QueryDirectory False status # calls'))
               else (STATUS_SUCCESS, calls @ [QueryDirectory False status])))"

definition is_dir_empty :: "dir_env \<Rightarrow> NTSTATUS \<times> nt_call list" where
  "is_dir_empty d =
     (let status = first_query d in
      if status = STATUS_NO_MORE_FILES then (STATUS_SUCCESS, [QueryDirectory True status])
      else if \<not> NT_SUCCESS status then (status, [QueryDirectory True status])
      else
        (case first_page d of
           (fname0, []) \<Rightarrow> (STATUS_SUCCESS, [QueryDirectory True status])
         | (fname0, [fname1]) \<Rightarrow> (STATUS_SUCCESS, [QueryDirectory True status])
         | (fname0, fname1 # fname2 # entries) \<Rightarrow>
             (case scan_pages (entry_status d) (fname2 # entries) (next_queries d) of
                (result, calls) \<Rightarrow> (result, QueryDirectory True status # calls))))"

subsection \<open>\<open>move_away\<close>\<close>

text \<open>
  The environment of one \<open>safe_unlink\<close>: the answers of the native calls, by the number
  of the call where a call is repeated. \<open>query_attributes k\<close> is the \<open>k\<close>-th
  \<open>NtQueryAttributesFile\<close> on the target (its status and \<open>FileAttributes\<close>),
  \<open>open_file k\<close> the \<open>k\<close>-th \<open>NtOpenFile\<close> for deletion, \<open>directory k\<close> what the
  \<open>k\<close>-th \<open>is_dir_empty\<close> finds, \<open>set_disposition i\<close> and \<open>open_relative i\<close> the
  answers in round \<open>i\<close> of the deletion loop. \<open>volume_path_name\<close> is what
  \<open>GetVolumePathNameW\<close> leaves in \<open>root_dir\<close>.
\<close>

record unlink_env =
  query_attributes :: "nat \<Rightarrow> NTSTATUS \<times> 32 word"
  open_write_attributes :: NTSTATUS
  set_basic_information :: NTSTATUS
  open_file :: "nat \<Rightarrow> NTSTATUS"
  directory :: "nat \<Rightarrow> dir_env"
  volume_path_name :: wstring
  query_internal_information :: "NTSTATUS \<times> 64 word"
  rename_file :: NTSTATUS
  set_disposition :: "nat \<Rightarrow> NTSTATUS"
  open_relative :: "nat \<Rightarrow> NTSTATUS"

definition digit_image :: wstring where
  "digit_image = L ''0123456789ABCDEF''"

definition trash_dir :: wstring where
  "trash_dir = L (''tmp'' @ [CHR 0x5C] @ ''trash'' @ [CHR 0x5C])"

definition nt_prefix :: wstring where
  "nt_prefix = L ([CHR 0x5C] @ ''??'' @ [CHR 0x5C])"

text \<open>The sixteen digits of the file id, written from the last to the first; \<open>>>=\<close> on
  the signed \<open>LONGLONG\<close> is the arithmetic shift.\<close>

fun file_id_digits :: "nat \<Rightarrow> 64 word \<Rightarrow> wstring \<Rightarrow> wstring" where
  "file_id_digits 0 file_id digits = digits"
| "file_id_digits (Suc n) file_id digits =
     file_id_digits n (signed_drop_bit 4 file_id) (digit_image ! unat (file_id AND 0xF) # digits)"

datatype memory_fault = Buffer_Overrun

text \<open>
  \<open>move_away\<close> copies the name into \<open>from_buffer\<close> (\<open>MAX_PATH\<close> wide characters) and
  writes the terminator at index \<open>filename.Length\<close>, a length in bytes; it builds the
  destination in \<open>dest_buffer\<close> (\<open>MAX_PATH\<close> wide characters): the prefix, the volume
  path and the trash directory with its terminator before \<open>NtQueryInformationFile\<close>, the
  sixteen digits and the terminator after it. A write outside a buffer is the fault, at
  the place where the code makes it. Otherwise the result is the status and the calls
  made.
\<close>

definition trash_path :: "wstring \<Rightarrow> 64 word \<Rightarrow> wstring" where
  "trash_path root_dir file_id = nt_prefix @ root_dir @ trash_dir @ file_id_digits 16 file_id []"

definition move_away :: "unlink_env \<Rightarrow> wstring \<Rightarrow> memory_fault + (NTSTATUS \<times> nt_call list)" where
  "move_away env filename =
     (if 2 * length filename \<ge> MAX_PATH \<or>
         length nt_prefix + length (volume_path_name env) + length trash_dir + 1 > MAX_PATH
      then Inl Buffer_Overrun
      else
        (case query_internal_information env of
           (status, file_id) \<Rightarrow>
             if \<not> NT_SUCCESS status then Inr (status, [QueryInternalInformation status])
             else if length nt_prefix + length (volume_path_name env) + length trash_dir + 16
                     \<ge> MAX_PATH
             then Inl Buffer_Overrun
             else
               let dest = trash_path (volume_path_name env) file_id;
                   status' = rename_file env
               in Inr (if \<not> NT_SUCCESS status' then status' else STATUS_SUCCESS,
                       [QueryInternalInformation status, Rename dest status'])))"

subsection \<open>\<open>safe_unlink\<close>\<close>

record UNLINK_RESULT =
  last_error_code :: NTSTATUS
  debug :: "32 word"

text \<open>The locals of \<open>safe_unlink\<close> that change after the file is open, the number of
  \<open>is_dir_empty\<close> calls made and the calls made so far.\<close>

record unlink_state =
  status :: NTSTATUS
  dir_empty :: bool
  try_to_move_away :: bool
  has_been_moved_away :: bool
  dir_calls :: nat
  calls :: "nt_call list"

text \<open>Clearing the read-only attribute. The result is an early return, or the status,
  the attributes and the calls to go on with.\<close>

definition clear_readonly ::
  "unlink_env \<Rightarrow> wstring \<Rightarrow> NTSTATUS \<Rightarrow> 32 word \<Rightarrow> nt_call list \<Rightarrow>
   (UNLINK_RESULT \<times> nt_call list) + (NTSTATUS \<times> 32 word \<times> nt_call list)" where
  "clear_readonly env name status0 attributes cs =
     (if FILE_ATTRIBUTE_READONLY AND attributes \<noteq> 0 then
        (let status1 = open_write_attributes env;
             cs1 = cs @ [OpenFile FILE_WRITE_ATTRIBUTES FILE_SHARE_VALID_FLAGS
                           FILE_OPEN_FOR_BACKUP_INTENT status1]
         in if NT_SUCCESS status1 then
              (let cs2 = cs1 @ [SetBasicInformation (attributes AND NOT FILE_ATTRIBUTE_READONLY)
                                  (set_basic_information env),
                                Close attributes_handle]
               in case query_attributes env 1 of
                    (status2, attributes2) \<Rightarrow>
                      if \<not> NT_SUCCESS status2
                      then Inl (\<lparr>last_error_code = status2, debug = 0x1\<rparr>,
                                cs2 @ [QueryAttributes name status2])
                      else Inr (status2, attributes2, cs2 @ [QueryAttributes name status2]))
            else Inr (status1, attributes, cs1))
      else Inr (status0, attributes, cs))"

text \<open>The loop that opens the file: \<open>try_counter\<close> attempts left, \<open>k\<close> attempts made. The
  result is an early return, or the status, the share mode, \<open>try_to_move_away\<close> and the
  calls.\<close>

fun open_loop ::
  "unlink_env \<Rightarrow> 32 word \<Rightarrow> 32 word \<Rightarrow> nat \<Rightarrow> nat \<Rightarrow> NTSTATUS \<Rightarrow> 32 word \<Rightarrow> bool \<Rightarrow> nt_call list \<Rightarrow>
   (UNLINK_RESULT \<times> nt_call list) + (NTSTATUS \<times> 32 word \<times> bool \<times> nt_call list)" where
  "open_loop env access flags 0 k status0 share move cs = Inr (status0, share, move, cs)"
| "open_loop env access flags (Suc try_counter) k status0 share move cs =
     (let status1 = open_file env k;
          cs1 = cs @ [OpenFile access share flags status1]
      in if status1 = STATUS_SHARING_VIOLATION then
           (if Suc try_counter < 2
            then Inl (\<lparr>last_error_code = status1, debug = 0x4\<rparr>, cs1)
            else open_loop env access flags try_counter (Suc k) status1 FILE_SHARE_VALID_FLAGS True
                   (cs1 @ [Sleep 5]))
         else if status1 = STATUS_DELETE_PENDING
           then Inl (\<lparr>last_error_code = STATUS_SUCCESS, debug = 0x2\<rparr>, cs1)
         else if \<not> NT_SUCCESS status1
           then Inl (\<lparr>last_error_code = status1, debug = 0x3\<rparr>, cs1)
         else Inr (status1, share, move, cs1))"

text \<open>The block \<open>if (try_to_move_away)\<close> after the file is open.\<close>

definition first_move_away ::
  "unlink_env \<Rightarrow> wstring \<Rightarrow> bool \<Rightarrow> unlink_state \<Rightarrow> memory_fault + unlink_state" where
  "first_move_away env name is_dir s =
     (if try_to_move_away s then
        (let s1 = (if is_dir then
                     (case is_dir_empty (directory env (dir_calls s)) of
                        (result, cs) \<Rightarrow>
                          s\<lparr>status := result, dir_calls := Suc (dir_calls s),
                            calls := calls s @ cs\<rparr>)
                   else s)
         in if NT_SUCCESS (status s1) then
              (case move_away env name of
                 Inl fault \<Rightarrow> Inl fault
               | Inr (result, cs) \<Rightarrow>
                   Inr (s1\<lparr>status := result,
                           has_been_moved_away := has_been_moved_away s1 \<or> NT_SUCCESS result,
                           calls := calls s1 @ cs\<rparr>))
            else Inr s1)
      else Inr s)"

text \<open>One round of the deletion loop, round \<open>i\<close>: the value of \<open>try_again\<close> before the
  test \<open>Should we loop again ?\<close>, and the state.\<close>

definition delete_attempt ::
  "unlink_env \<Rightarrow> wstring \<Rightarrow> 32 word \<Rightarrow> 32 word \<Rightarrow> 32 word \<Rightarrow> nat \<Rightarrow> unlink_state \<Rightarrow>
   memory_fault + (bool \<times> unlink_state)" where
  "delete_attempt env name access share flags i s =
     (let status1 = set_disposition env i;
          s1 = s\<lparr>status := status1, calls := calls s @ [SetDisposition status1]\<rparr>
      in if status1 = STATUS_DIRECTORY_NOT_EMPTY then
           (if \<not> dir_empty s1 then
              (case is_dir_empty (directory env (dir_calls s1)) of
                 (result, cs) \<Rightarrow>
                   Inr (NT_SUCCESS result,
                        s1\<lparr>dir_empty := NT_SUCCESS result, dir_calls := Suc (dir_calls s1),
                           calls := calls s1 @ cs\<rparr>))
            else Inr (True, s1))
         else if status1 = STATUS_CANNOT_DELETE then
           (case (if \<not> try_to_move_away s1 then
                    (case move_away env name of
                       Inl fault \<Rightarrow> Inl fault
                     | Inr (result, cs) \<Rightarrow>
                         Inr (s1\<lparr>status := result, try_to_move_away := True,
                                 has_been_moved_away := has_been_moved_away s1 \<or> NT_SUCCESS result,
                                 calls := calls s1 @ cs\<rparr>))
                  else Inr s1) of
              Inl fault \<Rightarrow> Inl fault
            | Inr s2 \<Rightarrow>
                (let status2 = open_relative env i
                 in Inr (True,
                      s2\<lparr>status := status2,
                         calls := calls s2 @
                           OpenRelative access share (flags OR FILE_DELETE_ON_CLOSE) status2 #
                           (if NT_SUCCESS status2 then [Close reopened_handle] else [])\<rparr>)))
         else Inr (NT_SUCCESS status1, s1))"

text \<open>The deletion loop, with \<open>try_counter\<close> attempts left. Every round either ends the
  loop or uses an attempt up.\<close>

fun delete_loop ::
  "unlink_env \<Rightarrow> wstring \<Rightarrow> 32 word \<Rightarrow> 32 word \<Rightarrow> 32 word \<Rightarrow> nat \<Rightarrow> nat \<Rightarrow> unlink_state \<Rightarrow>
   memory_fault + unlink_state" where
  "delete_loop env name access share flags 0 i s = Inr s"
| "delete_loop env name access share flags (Suc try_counter) i s =
     (case delete_attempt env name access share flags i s of
        Inl fault \<Rightarrow> Inl fault
      | Inr (try_again, s1) \<Rightarrow>
          if \<not> NT_SUCCESS (status s1) \<and> try_again
          then delete_loop env name access share flags try_counter (Suc i)
                 (s1\<lparr>calls := calls s1 @ [Sleep 5]\<rparr>)
          else Inr s1)"

text \<open>The end of \<open>safe_unlink\<close>: the handle is closed and the result is made.\<close>

definition unlink_result :: "unlink_state \<Rightarrow> UNLINK_RESULT \<times> nt_call list" where
  "unlink_result s =
     (if has_been_moved_away s \<and> \<not> NT_SUCCESS (status s)
      then \<lparr>last_error_code = STATUS_SUCCESS, debug = 0x6\<rparr>
      else \<lparr>last_error_code = status s, debug = 0\<rparr>,
      calls s @ [Close target_handle])"

text \<open>The state at the \<open>NtClose\<close> of the handle, or the early return before it. The two
  assignments to \<open>access\<close> and \<open>flags\<close> stand after the \<open>if\<close> on the directory attribute
  without braces: only \<open>is_dir = TRUE\<close> is under the \<open>if\<close>.\<close>

definition safe_unlink_run ::
  "unlink_env \<Rightarrow> wstring \<Rightarrow> memory_fault + (UNLINK_RESULT \<times> nt_call list) + unlink_state" where
  "safe_unlink_run env name =
     (case query_attributes env 0 of
        (status0, attributes0) \<Rightarrow>
          if \<not> NT_SUCCESS status0
          then Inr (Inl (\<lparr>last_error_code = status0, debug = 0x1\<rparr>, [QueryAttributes name status0]))
          else
            (case clear_readonly env name status0 attributes0 [QueryAttributes name status0] of
               Inl early \<Rightarrow> Inr (Inl early)
             | Inr (status1, attributes, cs1) \<Rightarrow>
                 (let is_dir = (FILE_ATTRIBUTE_DIRECTORY AND attributes \<noteq> 0);
                      access = DELETE OR FILE_LIST_DIRECTORY OR SYNCHRONIZE;
                      flags = FILE_OPEN_FOR_BACKUP_INTENT OR FILE_SYNCHRONOUS_IO_NONALERT
                  in case open_loop env access flags 10 0 status1 FILE_SHARE_DELETE False cs1 of
                       Inl early \<Rightarrow> Inr (Inl early)
                     | Inr (status2, share, move, cs2) \<Rightarrow>
                         (case first_move_away env name is_dir
                                 \<lparr>status = status2, dir_empty = False, try_to_move_away = move,
                                  has_been_moved_away = False, dir_calls = 0, calls = cs2\<rparr> of
                            Inl fault \<Rightarrow> Inl fault
                          | Inr s \<Rightarrow>
                              if NT_SUCCESS (status s)
                              then
                                (case delete_loop env name access share flags
                                        (if has_been_moved_away s then 5 else 20) 0 s of
                                   Inl fault \<Rightarrow> Inl fault
                                 | Inr s' \<Rightarrow> Inr (Inr s'))
                              else Inr (Inr s)))))"

definition safe_unlink :: "unlink_env \<Rightarrow> wstring \<Rightarrow> memory_fault + (UNLINK_RESULT \<times> nt_call list)" where
  "safe_unlink env name =
     (case safe_unlink_run env name of
        Inl fault \<Rightarrow> Inl fault
      | Inr (Inl early) \<Rightarrow> Inr early
      | Inr (Inr s) \<Rightarrow> Inr (unlink_result s))"

lemma NT_SUCCESS_simps [simp]:
  "NT_SUCCESS STATUS_SUCCESS" "\<not> NT_SUCCESS STATUS_NO_MORE_FILES"
  "\<not> NT_SUCCESS STATUS_ACCESS_DENIED" "\<not> NT_SUCCESS STATUS_SHARING_VIOLATION"
  "\<not> NT_SUCCESS STATUS_DELETE_PENDING" "\<not> NT_SUCCESS STATUS_DIRECTORY_NOT_EMPTY"
  "\<not> NT_SUCCESS STATUS_CANNOT_DELETE"
  by (simp_all add: NT_SUCCESS_def STATUS_defs)

subsection \<open>The first page of \<open>is_dir_empty\<close>\<close>

text \<open>A first page of two entries that are not \<open>.\<close> and \<open>..\<close> and that both exist.\<close>

definition two_entries :: dir_env where
  "two_entries = \<lparr>first_query = STATUS_SUCCESS, first_page = (L ''a.txt'', [L ''b.txt'']),
     next_queries = [], entry_status = (\<lambda>fname. STATUS_SUCCESS)\<rparr>"

text \<open>
  \<^bold>\<open>C10\<close>. When the first \<open>NtQueryDirectoryFile\<close> succeeds and its page holds one
  or two entries, of whatever names and whatever \<open>NtQueryAttributesFile\<close> would say of
  them, \<open>is_dir_empty\<close> returns \<open>STATUS_SUCCESS\<close> and makes no other call: the two
  entries are passed over by position.
\<close>

theorem is_dir_empty_short_first_page:
  "NT_SUCCESS (first_query d) \<Longrightarrow> length (snd (first_page d)) \<le> 1 \<Longrightarrow>
   is_dir_empty d = (STATUS_SUCCESS, [QueryDirectory True (first_query d)])"
proof -
  assume ok: "NT_SUCCESS (first_query d)" and len: "length (snd (first_page d)) \<le> 1"
  have ne: "first_query d \<noteq> STATUS_NO_MORE_FILES" using ok by auto
  obtain fname0 entries where p: "first_page d = (fname0, entries)"
    by (cases "first_page d") auto
  have "entries = [] \<or> (\<exists>fname1. entries = [fname1])"
    using len p by (cases entries) (auto simp: length_Suc_conv)
  then show ?thesis using ok ne p by (auto simp: is_dir_empty_def Let_def)
qed

theorem is_dir_empty_short_first_page_witness:
  "NT_SUCCESS (first_query two_entries) \<and> length (snd (first_page two_entries)) \<le> 1 \<and>
   entry_status two_entries (L ''a.txt'') = STATUS_SUCCESS \<and>
   is_dir_empty two_entries = (STATUS_SUCCESS, [QueryDirectory True STATUS_SUCCESS])"
proof -
  have a: "NT_SUCCESS (first_query two_entries)" by (simp add: two_entries_def)
  have b: "length (snd (first_page two_entries)) \<le> 1" by (simp add: two_entries_def)
  show ?thesis using a b is_dir_empty_short_first_page [OF a b] by (simp add: two_entries_def)
qed

subsection \<open>The access mask of \<open>safe_unlink\<close>\<close>

text \<open>A target name, an empty directory listing and an environment in which the target
  is a plain file that nothing holds open.\<close>

definition target_name :: wstring where
  "target_name = nt_prefix @ L (''C:'' @ [CHR 0x5C] @ ''t'')"

definition empty_dir :: dir_env where
  "empty_dir = \<lparr>first_query = STATUS_SUCCESS, first_page = (L ''.'', [L ''..'']),
     next_queries = [], entry_status = (\<lambda>fname. STATUS_OBJECT_NAME_NOT_FOUND)\<rparr>"

definition regular_file_env :: unlink_env where
  "regular_file_env = \<lparr>query_attributes = (\<lambda>k. (STATUS_SUCCESS, FILE_ATTRIBUTE_NORMAL)),
     open_write_attributes = STATUS_SUCCESS, set_basic_information = STATUS_SUCCESS,
     open_file = (\<lambda>k. STATUS_SUCCESS), directory = (\<lambda>k. empty_dir),
     volume_path_name = L (''C:'' @ [CHR 0x5C]),
     query_internal_information = (STATUS_SUCCESS, 0x2A), rename_file = STATUS_SUCCESS,
     set_disposition = (\<lambda>i. STATUS_SUCCESS), open_relative = (\<lambda>i. STATUS_SUCCESS)\<rparr>"

text \<open>
  \<^bold>\<open>C5\<close> (the code at a plain file). The attributes of the target have no directory
  bit, and still \<open>NtOpenFile\<close> is called with \<open>DELETE | FILE_LIST_DIRECTORY |
  SYNCHRONIZE\<close> and \<open>FILE_OPEN_FOR_BACKUP_INTENT | FILE_SYNCHRONOUS_IO_NONALERT\<close>: the
  two assignments are not under the \<open>if\<close>.
\<close>

theorem safe_unlink_regular_file_access:
  "FILE_ATTRIBUTE_DIRECTORY AND FILE_ATTRIBUTE_NORMAL = 0 \<and>
   safe_unlink regular_file_env target_name =
     Inr (\<lparr>last_error_code = STATUS_SUCCESS, debug = 0\<rparr>,
          [QueryAttributes target_name STATUS_SUCCESS,
           OpenFile (DELETE OR FILE_LIST_DIRECTORY OR SYNCHRONIZE) FILE_SHARE_DELETE
             (FILE_OPEN_FOR_BACKUP_INTENT OR FILE_SYNCHRONOUS_IO_NONALERT) STATUS_SUCCESS,
           SetDisposition STATUS_SUCCESS, Close target_handle]) \<and>
   DELETE OR FILE_LIST_DIRECTORY OR SYNCHRONIZE \<noteq> DELETE \<and>
   FILE_OPEN_FOR_BACKUP_INTENT OR FILE_SYNCHRONOUS_IO_NONALERT \<noteq> FILE_OPEN_FOR_BACKUP_INTENT"
proof -
  have a: "FILE_ATTRIBUTE_DIRECTORY AND FILE_ATTRIBUTE_NORMAL = 0"
    "FILE_ATTRIBUTE_READONLY AND FILE_ATTRIBUTE_NORMAL = 0"
    "DELETE OR FILE_LIST_DIRECTORY OR SYNCHRONIZE \<noteq> DELETE"
    "FILE_OPEN_FOR_BACKUP_INTENT OR FILE_SYNCHRONOUS_IO_NONALERT \<noteq> FILE_OPEN_FOR_BACKUP_INTENT"
    by (simp_all add: FILE_defs)
  have ne: "STATUS_SUCCESS \<noteq> STATUS_SHARING_VIOLATION" "STATUS_SUCCESS \<noteq> STATUS_DELETE_PENDING"
    "STATUS_SUCCESS \<noteq> STATUS_DIRECTORY_NOT_EMPTY" "STATUS_SUCCESS \<noteq> STATUS_CANNOT_DELETE"
    by (simp_all add: STATUS_defs)
  have "safe_unlink_run regular_file_env target_name =
     Inr (Inr \<lparr>status = STATUS_SUCCESS, dir_empty = False, try_to_move_away = False,
        has_been_moved_away = False, dir_calls = 0,
        calls = [QueryAttributes target_name STATUS_SUCCESS,
           OpenFile (DELETE OR FILE_LIST_DIRECTORY OR SYNCHRONIZE) FILE_SHARE_DELETE
             (FILE_OPEN_FOR_BACKUP_INTENT OR FILE_SYNCHRONOUS_IO_NONALERT) STATUS_SUCCESS,
           SetDisposition STATUS_SUCCESS]\<rparr>)"
    using a ne
    by (simp add: safe_unlink_run_def regular_file_env_def clear_readonly_def
        first_move_away_def delete_attempt_def numeral_eq_Suc)
  then show ?thesis using a by (simp add: safe_unlink_def unlink_result_def)
qed

subsection \<open>A directory that is not empty\<close>

text \<open>The renames among the calls, and the statuses of the attempts to mark the file
  for deletion (the delete disposition and the reopen with \<open>FILE_DELETE_ON_CLOSE\<close>).\<close>

fun renames :: "nt_call list \<Rightarrow> (wstring \<times> NTSTATUS) list" where
  "renames [] = []"
| "renames (Rename dest st # cs) = (dest, st) # renames cs"
| "renames (c # cs) = renames cs"

fun delete_statuses :: "nt_call list \<Rightarrow> NTSTATUS list" where
  "delete_statuses [] = []"
| "delete_statuses (SetDisposition st # cs) = st # delete_statuses cs"
| "delete_statuses (OpenRelative access share flags st # cs) = st # delete_statuses cs"
| "delete_statuses (c # cs) = delete_statuses cs"

text \<open>A directory with one entry that exists, read-only, whose attributes cannot be
  written: \<open>NtOpenFile\<close> for \<open>FILE_WRITE_ATTRIBUTES\<close> is denied, the delete disposition
  is refused with \<open>STATUS_CANNOT_DELETE\<close> and the reopen with
  \<open>FILE_DELETE_ON_CLOSE\<close> with \<open>STATUS_DIRECTORY_NOT_EMPTY\<close>.\<close>

definition full_dir :: dir_env where
  "full_dir = \<lparr>first_query = STATUS_SUCCESS, first_page = (L ''.'', [L ''..'', L ''child'']),
     next_queries = [], entry_status = (\<lambda>fname. STATUS_SUCCESS)\<rparr>"

definition readonly_dir_env :: unlink_env where
  "readonly_dir_env = \<lparr>
     query_attributes = (\<lambda>k. (STATUS_SUCCESS, FILE_ATTRIBUTE_DIRECTORY OR FILE_ATTRIBUTE_READONLY)),
     open_write_attributes = STATUS_ACCESS_DENIED, set_basic_information = STATUS_ACCESS_DENIED,
     open_file = (\<lambda>k. STATUS_SUCCESS), directory = (\<lambda>k. full_dir),
     volume_path_name = L (''C:'' @ [CHR 0x5C]),
     query_internal_information = (STATUS_SUCCESS, 0x2A), rename_file = STATUS_SUCCESS,
     set_disposition = (\<lambda>i. STATUS_CANNOT_DELETE),
     open_relative = (\<lambda>i. STATUS_DIRECTORY_NOT_EMPTY)\<rparr>"

lemma renames_append [simp]: "renames (a @ b) = renames a @ renames b"
  by (induction a rule: renames.induct) simp_all

lemma delete_statuses_append [simp]:
  "delete_statuses (a @ b) = delete_statuses a @ delete_statuses b"
  by (induction a rule: delete_statuses.induct) simp_all

lemma full_dir_not_empty:
  "is_dir_empty full_dir =
     (STATUS_DIRECTORY_NOT_EMPTY,
      [QueryDirectory True STATUS_SUCCESS, QueryAttributes (L ''child'') STATUS_SUCCESS])"
  by (simp add: is_dir_empty_def full_dir_def STATUS_defs NT_SUCCESS_def)

lemma move_away_readonly_dir:
  "move_away readonly_dir_env target_name =
     Inr (STATUS_SUCCESS,
          [QueryInternalInformation STATUS_SUCCESS,
           Rename (trash_path (L (''C:'' @ [CHR 0x5C])) 0x2A) STATUS_SUCCESS])"
  by (simp add: move_away_def readonly_dir_env_def target_name_def MAX_PATH_def nt_prefix_def
      trash_dir_def L_def)


lemma status_distinct:
  "STATUS_CANNOT_DELETE \<noteq> STATUS_DIRECTORY_NOT_EMPTY"
  "STATUS_DIRECTORY_NOT_EMPTY \<noteq> STATUS_CANNOT_DELETE"
  "STATUS_SUCCESS \<noteq> STATUS_SHARING_VIOLATION" "STATUS_SUCCESS \<noteq> STATUS_DELETE_PENDING"
  "STATUS_SUCCESS \<noteq> STATUS_DIRECTORY_NOT_EMPTY" "STATUS_SUCCESS \<noteq> STATUS_CANNOT_DELETE"
  "STATUS_ACCESS_DENIED \<noteq> STATUS_DIRECTORY_NOT_EMPTY"
  "STATUS_ACCESS_DENIED \<noteq> STATUS_CANNOT_DELETE"
  "STATUS_SHARING_VIOLATION \<noteq> STATUS_SUCCESS"
  by (simp_all add: STATUS_defs)

text \<open>In the rounds after the move the disposition fails with \<open>STATUS_CANNOT_DELETE\<close>
  and the reopen with \<open>STATUS_DIRECTORY_NOT_EMPTY\<close>; nothing is renamed any more.\<close>

lemma delete_loop_readonly_dir:
  "try_to_move_away s \<Longrightarrow>
   \<exists>s'. delete_loop readonly_dir_env target_name access share flags n i s = Inr s' \<and>
     renames (calls s') = renames (calls s) \<and>
     has_been_moved_away s' = has_been_moved_away s \<and>
     (0 < n \<longrightarrow> status s' = STATUS_DIRECTORY_NOT_EMPTY) \<and> (n = 0 \<longrightarrow> s' = s)"
proof (induction n arbitrary: i s)
  case 0
  then show ?case by simp
next
  case (Suc n)
  let ?s1 = "s\<lparr>status := STATUS_DIRECTORY_NOT_EMPTY,
      calls := calls s @ [SetDisposition STATUS_CANNOT_DELETE,
        OpenRelative access share (flags OR FILE_DELETE_ON_CLOSE) STATUS_DIRECTORY_NOT_EMPTY]\<rparr>"
  have a: "delete_attempt readonly_dir_env target_name access share flags i s = Inr (True, ?s1)"
    using Suc.prems by (simp add: delete_attempt_def readonly_dir_env_def status_distinct)
  have t: "try_to_move_away (?s1\<lparr>calls := calls ?s1 @ [Sleep 5]\<rparr>)" using Suc.prems by simp
  from Suc.IH [OF t, of "Suc i"] obtain s' where
    s': "delete_loop readonly_dir_env target_name access share flags n (Suc i)
           (?s1\<lparr>calls := calls ?s1 @ [Sleep 5]\<rparr>) = Inr s'"
      "renames (calls s') = renames (calls (?s1\<lparr>calls := calls ?s1 @ [Sleep 5]\<rparr>))"
      "has_been_moved_away s' = has_been_moved_away (?s1\<lparr>calls := calls ?s1 @ [Sleep 5]\<rparr>)"
      "0 < n \<longrightarrow> status s' = STATUS_DIRECTORY_NOT_EMPTY"
      "n = 0 \<longrightarrow> s' = ?s1\<lparr>calls := calls ?s1 @ [Sleep 5]\<rparr>"
    by blast
  show ?case using a s' by (cases n) auto
qed

lemma open_loop_10:
  "open_loop env access flags 10 k status0 share move cs =
     (let status1 = open_file env k;
          cs1 = cs @ [OpenFile access share flags status1]
      in if status1 = STATUS_SHARING_VIOLATION then
           open_loop env access flags 9 (Suc k) status1 FILE_SHARE_VALID_FLAGS True
                   (cs1 @ [Sleep 5])
         else if status1 = STATUS_DELETE_PENDING
           then Inl (\<lparr>last_error_code = STATUS_SUCCESS, debug = 0x2\<rparr>, cs1)
         else if \<not> NT_SUCCESS status1
           then Inl (\<lparr>last_error_code = status1, debug = 0x3\<rparr>, cs1)
         else Inr (status1, share, move, cs1))"
proof -
  have "(10::nat) = Suc 9" by simp
  then have "open_loop env access flags 10 k status0 share move cs =
     open_loop env access flags (Suc 9) k status0 share move cs" by (simp only:)
  then show ?thesis by (simp only: open_loop.simps) (simp add: Let_def)
qed

lemma delete_loop_20:
  "delete_loop env name access share flags 20 i s =
     (case delete_attempt env name access share flags i s of
        Inl fault \<Rightarrow> Inl fault
      | Inr (try_again, s1) \<Rightarrow>
          if \<not> NT_SUCCESS (status s1) \<and> try_again
          then delete_loop env name access share flags 19 (Suc i)
                 (s1\<lparr>calls := calls s1 @ [Sleep 5]\<rparr>)
          else Inr s1)"
proof -
  have "(20::nat) = Suc 19" by simp
  then have "delete_loop env name access share flags 20 i s =
     delete_loop env name access share flags (Suc 19) i s" by (simp only:)
  then show ?thesis by (simp only: delete_loop.simps)
qed

lemma readonly_dir_opened:
  "safe_unlink_run readonly_dir_env target_name =
      (case delete_loop readonly_dir_env target_name (DELETE OR FILE_LIST_DIRECTORY OR SYNCHRONIZE)
              FILE_SHARE_DELETE (FILE_OPEN_FOR_BACKUP_INTENT OR FILE_SYNCHRONOUS_IO_NONALERT) 20 0
              \<lparr>status = STATUS_SUCCESS, dir_empty = False, try_to_move_away = False,
               has_been_moved_away = False, dir_calls = 0,
               calls = [QueryAttributes target_name STATUS_SUCCESS,
                 OpenFile FILE_WRITE_ATTRIBUTES FILE_SHARE_VALID_FLAGS FILE_OPEN_FOR_BACKUP_INTENT
                   STATUS_ACCESS_DENIED,
                 OpenFile (DELETE OR FILE_LIST_DIRECTORY OR SYNCHRONIZE) FILE_SHARE_DELETE
                   (FILE_OPEN_FOR_BACKUP_INTENT OR FILE_SYNCHRONOUS_IO_NONALERT) STATUS_SUCCESS]\<rparr> of
         Inl fault \<Rightarrow> Inl fault
       | Inr s' \<Rightarrow> Inr (Inr s'))"
proof -
  have ro: "FILE_ATTRIBUTE_READONLY AND (FILE_ATTRIBUTE_DIRECTORY OR FILE_ATTRIBUTE_READONLY) \<noteq> 0"
    "FILE_ATTRIBUTE_DIRECTORY AND (FILE_ATTRIBUTE_DIRECTORY OR FILE_ATTRIBUTE_READONLY) \<noteq> 0"
    by (simp_all add: FILE_defs)
  have cl: "clear_readonly readonly_dir_env target_name STATUS_SUCCESS
      (FILE_ATTRIBUTE_DIRECTORY OR FILE_ATTRIBUTE_READONLY) [QueryAttributes target_name STATUS_SUCCESS]
    = Inr (STATUS_ACCESS_DENIED, FILE_ATTRIBUTE_DIRECTORY OR FILE_ATTRIBUTE_READONLY,
        [QueryAttributes target_name STATUS_SUCCESS,
         OpenFile FILE_WRITE_ATTRIBUTES FILE_SHARE_VALID_FLAGS FILE_OPEN_FOR_BACKUP_INTENT
           STATUS_ACCESS_DENIED])"
    using ro by (simp add: clear_readonly_def readonly_dir_env_def)
  have op: "open_loop readonly_dir_env access flags 10 0 st FILE_SHARE_DELETE False cs =
     Inr (STATUS_SUCCESS, FILE_SHARE_DELETE, False,
          cs @ [OpenFile access FILE_SHARE_DELETE flags STATUS_SUCCESS])"
    for access flags st cs
    by (simp add: open_loop_10 readonly_dir_env_def status_distinct)
  have q: "query_attributes readonly_dir_env 0 =
      (STATUS_SUCCESS, FILE_ATTRIBUTE_DIRECTORY OR FILE_ATTRIBUTE_READONLY)"
    by (simp add: readonly_dir_env_def)
  show ?thesis
    unfolding safe_unlink_run_def q
    by (simp add: cl op first_move_away_def Let_def del: delete_loop.simps)
qed

text \<open>The first move-away site does ask: when the open has met a sharing violation and
  \<open>is_dir_empty\<close> does not succeed on the directory, nothing is renamed and the status
  of \<open>is_dir_empty\<close> is the status the function goes on with.\<close>

lemma first_move_away_not_empty:
  assumes "try_to_move_away s"
    and "\<not> NT_SUCCESS (fst (is_dir_empty (directory env (dir_calls s))))"
  shows "\<exists>s'. first_move_away env name True s = Inr s' \<and>
           status s' = fst (is_dir_empty (directory env (dir_calls s))) \<and>
           has_been_moved_away s' = has_been_moved_away s \<and>
           calls s' = calls s @ snd (is_dir_empty (directory env (dir_calls s)))"
  using assms by (auto simp: first_move_away_def Let_def split: prod.splits)

text \<open>
  \<^bold>\<open>C3\<close> (the code at a directory that is not empty). \<open>is_dir_empty\<close> finds the
  directory not empty, yet \<open>safe_unlink\<close> never asks: the open succeeds at once, the
  disposition answers \<open>STATUS_CANNOT_DELETE\<close>, and the branch for that status calls
  \<open>move_away\<close> with no emptiness check. The directory is renamed into the trash
  directory and the result is success with debug code 6.
\<close>

theorem safe_unlink_readonly_directory:
  "is_dir_empty (directory readonly_dir_env 0) =
     (STATUS_DIRECTORY_NOT_EMPTY,
      [QueryDirectory True STATUS_SUCCESS, QueryAttributes (L ''child'') STATUS_SUCCESS]) \<and>
   (case safe_unlink readonly_dir_env target_name of
      Inl fault \<Rightarrow> None
    | Inr (result, cs) \<Rightarrow> Some (result, renames cs)) =
     Some (\<lparr>last_error_code = STATUS_SUCCESS, debug = 0x6\<rparr>,
           [(trash_path (L (''C:'' @ [CHR 0x5C])) 0x2A, STATUS_SUCCESS)])"
proof -
  let ?access = "DELETE OR FILE_LIST_DIRECTORY OR SYNCHRONIZE"
  let ?flags = "FILE_OPEN_FOR_BACKUP_INTENT OR FILE_SYNCHRONOUS_IO_NONALERT"
  let ?cs0 = "[QueryAttributes target_name STATUS_SUCCESS,
      OpenFile FILE_WRITE_ATTRIBUTES FILE_SHARE_VALID_FLAGS FILE_OPEN_FOR_BACKUP_INTENT
        STATUS_ACCESS_DENIED,
      OpenFile ?access FILE_SHARE_DELETE ?flags STATUS_SUCCESS]"
  let ?s0 = "\<lparr>status = STATUS_SUCCESS, dir_empty = False, try_to_move_away = False,
      has_been_moved_away = False, dir_calls = 0, calls = ?cs0\<rparr>"
  let ?cs1 = "?cs0 @ [SetDisposition STATUS_CANNOT_DELETE,
        QueryInternalInformation STATUS_SUCCESS,
        Rename (trash_path (L (''C:'' @ [CHR 0x5C])) 0x2A) STATUS_SUCCESS,
        OpenRelative ?access FILE_SHARE_DELETE (?flags OR FILE_DELETE_ON_CLOSE)
          STATUS_DIRECTORY_NOT_EMPTY]"
  let ?s1 = "\<lparr>status = STATUS_DIRECTORY_NOT_EMPTY, dir_empty = False, try_to_move_away = True,
      has_been_moved_away = True, dir_calls = 0, calls = ?cs1\<rparr>"
  let ?s2 = "?s1\<lparr>calls := calls ?s1 @ [Sleep 5]\<rparr>"
  have sd: "set_disposition readonly_dir_env 0 = STATUS_CANNOT_DELETE"
    and orel: "open_relative readonly_dir_env 0 = STATUS_DIRECTORY_NOT_EMPTY"
    by (simp_all add: readonly_dir_env_def)
  have att: "delete_attempt readonly_dir_env target_name ?access FILE_SHARE_DELETE ?flags 0 ?s0 =
      Inr (True, ?s1)"
    unfolding delete_attempt_def sd orel
    by (simp add: move_away_readonly_dir status_distinct Let_def)
  have step: "delete_loop readonly_dir_env target_name ?access FILE_SHARE_DELETE ?flags 20 0 ?s0 =
      delete_loop readonly_dir_env target_name ?access FILE_SHARE_DELETE ?flags 19 (Suc 0) ?s2"
    unfolding delete_loop_20 att by simp
  have t: "try_to_move_away ?s2" by simp
  from delete_loop_readonly_dir [OF t, of ?access FILE_SHARE_DELETE ?flags 19 "Suc 0"]
  obtain s' where s':
    "delete_loop readonly_dir_env target_name ?access FILE_SHARE_DELETE ?flags 19 (Suc 0) ?s2 = Inr s'"
    "renames (calls s') = renames (calls ?s2)" "has_been_moved_away s' = has_been_moved_away ?s2"
    "status s' = STATUS_DIRECTORY_NOT_EMPTY"
    by auto
  have run: "safe_unlink_run readonly_dir_env target_name = Inr (Inr s')"
    unfolding readonly_dir_opened step s'(1) by simp
  have "(case safe_unlink readonly_dir_env target_name of
      Inl fault \<Rightarrow> None
    | Inr (result, cs) \<Rightarrow> Some (result, renames cs)) =
     Some (\<lparr>last_error_code = STATUS_SUCCESS, debug = 0x6\<rparr>,
           [(trash_path (L (''C:'' @ [CHR 0x5C])) 0x2A, STATUS_SUCCESS)])"
    using s'(2,3,4) unfolding safe_unlink_def run by (simp add: unlink_result_def)
  moreover have "directory readonly_dir_env 0 = full_dir" by (simp add: readonly_dir_env_def)
  ultimately show ?thesis using full_dir_not_empty by simp
qed

subsection \<open>A file that was moved away and could not be deleted\<close>

text \<open>\<open>renamed\<close>: a rename among the calls succeeded. \<open>quiet\<close>: the calls hold no
  rename and no attempt to mark the file for deletion. The two invariants of the state:
  \<open>has_been_moved_away\<close> says that a rename has succeeded, and \<open>status\<close> is the status
  of the last attempt to mark the file for deletion.\<close>

definition renamed :: "nt_call list \<Rightarrow> bool" where
  "renamed cs \<longleftrightarrow> list_ex (\<lambda>(dest, st). NT_SUCCESS st) (renames cs)"

definition quiet :: "nt_call list \<Rightarrow> bool" where
  "quiet cs \<longleftrightarrow> renames cs = [] \<and> delete_statuses cs = []"

definition moved_inv :: "unlink_state \<Rightarrow> bool" where
  "moved_inv s \<longleftrightarrow> (has_been_moved_away s \<longleftrightarrow> renamed (calls s))"

definition status_inv :: "unlink_state \<Rightarrow> bool" where
  "status_inv s \<longleftrightarrow>
     delete_statuses (calls s) \<noteq> [] \<and> last (delete_statuses (calls s)) = status s"

lemma renamed_append [simp]: "renamed (a @ b) \<longleftrightarrow> renamed a \<or> renamed b"
  by (simp add: renamed_def)

lemma renamed_Nil [simp]: "\<not> renamed []"
  by (simp add: renamed_def)

lemma renamed_Cons [simp]:
  "renamed (c # cs) \<longleftrightarrow> (case c of Rename dest st \<Rightarrow> NT_SUCCESS st | _ \<Rightarrow> False) \<or> renamed cs"
  by (cases c) (simp_all add: renamed_def)

lemma quiet_simps [simp]:
  "quiet []" "quiet (a @ b) \<longleftrightarrow> quiet a \<and> quiet b"
  "quiet (QueryAttributes n st # cs) \<longleftrightarrow> quiet cs"
  "quiet (OpenFile ac sh fl st # cs) \<longleftrightarrow> quiet cs"
  "quiet (SetBasicInformation at st # cs) \<longleftrightarrow> quiet cs"
  "quiet (QueryDirectory r st # cs) \<longleftrightarrow> quiet cs"
  "quiet (QueryInternalInformation st # cs) \<longleftrightarrow> quiet cs"
  "quiet (Close h # cs) \<longleftrightarrow> quiet cs"
  "quiet (Sleep ms # cs) \<longleftrightarrow> quiet cs"
  by (auto simp: quiet_def)

lemma quiet_renamed: "quiet cs \<Longrightarrow> \<not> renamed cs"
  by (simp add: quiet_def renamed_def)

lemma quiet_statuses:
  "quiet b \<Longrightarrow> delete_statuses (a @ b) = delete_statuses a"
  by (simp add: quiet_def)

lemma scan_entries_quiet: "quiet (snd (scan_entries query entries))"
  by (induction entries) (auto simp: Let_def split: prod.splits)

lemma scan_pages_quiet: "quiet (snd (scan_pages query entries later))"
proof (induction query entries later rule: scan_pages.induct)
  case (1 query entries later)
  obtain found cs where se: "scan_entries query entries = (found, cs)"
    by (cases "scan_entries query entries") auto
  have q: "quiet cs" using scan_entries_quiet [of query entries] se by simp
  show ?case
  proof (cases found)
    case True
    then show ?thesis using se q by (simp del: scan_entries.simps)
  next
    case False
    show ?thesis
    proof (cases later)
      case Nil
      then show ?thesis using se q False by (simp del: scan_entries.simps)
    next
      case (Cons p later')
      obtain st fname entries' where p: "p = (st, fname, entries')" by (cases p) auto
      show ?thesis
      proof (cases "NT_SUCCESS st")
        case ok: True
        have "quiet (snd (scan_pages query (fname # entries') later'))"
          by (rule "1.IH" [of found cs p later' st "(fname, entries')" fname entries'])
            (use se False Cons p ok in auto)
        then show ?thesis using se q False Cons p ok
          by (cases "scan_pages query (fname # entries') later'")
            (simp del: scan_entries.simps scan_pages.simps add: scan_pages.simps [of query entries])
      next
        case no: False
        then show ?thesis using se q False Cons p
          by (simp del: scan_entries.simps scan_pages.simps add: scan_pages.simps [of query entries])
      qed
    qed
  qed
qed

lemma is_dir_empty_quiet: "quiet (snd (is_dir_empty d))"
proof -
  have "quiet (snd (scan_pages q es l))" for q es l by (rule scan_pages_quiet)
  then have "\<And>q es l r cs. scan_pages q es l = (r, cs) \<Longrightarrow> quiet cs"
    by (metis snd_conv)
  then show ?thesis
    by (auto simp: is_dir_empty_def Let_def split: prod.splits list.splits
        simp del: scan_pages.simps)
qed

lemma NT_SUCCESS_STATUS_SUCCESS: "NT_SUCCESS STATUS_SUCCESS"
  by (simp add: NT_SUCCESS_def STATUS_SUCCESS_def)

lemma move_away_calls:
  "move_away env name = Inr (result, cs) \<Longrightarrow>
   delete_statuses cs = [] \<and> (renamed cs \<longleftrightarrow> NT_SUCCESS result)"
  by (auto simp: move_away_def Let_def renamed_def NT_SUCCESS_STATUS_SUCCESS
      split: if_splits prod.splits)

lemma clear_readonly_quiet:
  "quiet cs \<Longrightarrow>
   (clear_readonly env name st at cs = Inl (res, cs') \<longrightarrow> quiet cs') \<and>
   (clear_readonly env name st at cs = Inr (st', at', cs') \<longrightarrow> quiet cs')"
  by (auto simp: clear_readonly_def Let_def split: if_splits prod.splits)

lemma open_loop_quiet:
  "quiet cs \<Longrightarrow>
   (open_loop env access flags n k st share mv cs = Inl (res, cs') \<longrightarrow> quiet cs') \<and>
   (open_loop env access flags n k st share mv cs = Inr (st', share', mv', cs') \<longrightarrow> quiet cs')"
proof (induction n arbitrary: k st share mv cs)
  case 0
  then show ?case by auto
next
  case (Suc n)
  have q: "quiet ((cs @ [OpenFile access share flags (open_file env k)]) @ [Sleep 5])"
    using Suc.prems by simp
  show ?case
    using Suc.IH [OF q, of "Suc k" "open_file env k" FILE_SHARE_VALID_FLAGS True] Suc.prems
    by (auto simp: Let_def split: if_splits)
qed

lemma first_move_away_inv:
  assumes "first_move_away env name is_dir s = Inr s'"
    and "\<not> has_been_moved_away s" and "quiet (calls s)"
  shows "moved_inv s' \<and> delete_statuses (calls s') = [] \<and>
         (has_been_moved_away s' \<longrightarrow> NT_SUCCESS (status s'))"
proof (cases "try_to_move_away s")
  case False
  then show ?thesis using assms by (auto simp: first_move_away_def moved_inv_def quiet_def renamed_def)
next
  case True
  define s1 where "s1 = (if is_dir then
                     (case is_dir_empty (directory env (dir_calls s)) of
                        (result, cs) \<Rightarrow>
                          s\<lparr>status := result, dir_calls := Suc (dir_calls s),
                            calls := calls s @ cs\<rparr>)
                   else s)"
  have q1: "quiet (calls s1)" and h1: "\<not> has_been_moved_away s1"
    using assms(2,3) is_dir_empty_quiet [of "directory env (dir_calls s)"]
    by (auto simp: s1_def split: prod.splits)
  show ?thesis
  proof (cases "NT_SUCCESS (status s1)")
    case False
    then have "s' = s1" using assms(1) True by (simp add: first_move_away_def s1_def [symmetric] Let_def)
    then show ?thesis using q1 h1 by (simp add: moved_inv_def quiet_renamed) (simp add: quiet_def)
  next
    case ok: True
    then obtain result cs where mv: "move_away env name = Inr (result, cs)"
      and s': "s' = s1\<lparr>status := result,
                           has_been_moved_away := has_been_moved_away s1 \<or> NT_SUCCESS result,
                           calls := calls s1 @ cs\<rparr>"
      using assms(1) True
      by (auto simp: first_move_away_def s1_def [symmetric] Let_def split: sum.splits)
    from move_away_calls [OF mv] show ?thesis using s' q1 h1
      by (simp add: moved_inv_def quiet_renamed) (simp add: quiet_def)
  qed
qed

lemma delete_attempt_inv:
  assumes "delete_attempt env name access share flags i s = Inr (try_again, s')"
    and "moved_inv s"
  shows "moved_inv s' \<and> status_inv s'"
proof -
  let ?st = "set_disposition env i"
  let ?s1 = "s\<lparr>status := ?st, calls := calls s @ [SetDisposition ?st]\<rparr>"
  have i1: "moved_inv ?s1" "status_inv ?s1"
    using assms(2) by (simp_all add: moved_inv_def status_inv_def renamed_def)
  show ?thesis
  proof (cases "?st = STATUS_DIRECTORY_NOT_EMPTY")
    case True
    show ?thesis
    proof (cases "dir_empty s")
      case e: True
      then have "s' = ?s1" using assms(1) True by (simp add: delete_attempt_def Let_def)
      then show ?thesis using i1 by simp
    next
      case e: False
      obtain result cs where d: "is_dir_empty (directory env (dir_calls s)) = (result, cs)"
        by (cases "is_dir_empty (directory env (dir_calls s))") auto
      have q: "quiet cs" using is_dir_empty_quiet [of "directory env (dir_calls s)"] d by simp
      have "s' = ?s1\<lparr>dir_empty := NT_SUCCESS result, dir_calls := Suc (dir_calls ?s1),
                           calls := calls ?s1 @ cs\<rparr>"
        using assms(1) True e d by (auto simp: delete_attempt_def Let_def)
      then show ?thesis using i1 q
        by (simp add: moved_inv_def status_inv_def quiet_renamed) (simp add: quiet_def)
    qed
  next
    case ne: False
    show ?thesis
    proof (cases "?st = STATUS_CANNOT_DELETE")
      case False
      then have "s' = ?s1" using assms(1) ne by (simp add: delete_attempt_def Let_def)
      then show ?thesis using i1 by simp
    next
      case True
      let ?os = "open_relative env i"
      let ?tail = "OpenRelative access share (flags OR FILE_DELETE_ON_CLOSE) ?os #
                           (if NT_SUCCESS ?os then [Close reopened_handle] else [])"
      have tail: "renames ?tail = []" "delete_statuses ?tail = [?os]" by simp_all
      show ?thesis
      proof (cases "try_to_move_away s")
        case t: True
        then have "s' = ?s1\<lparr>status := ?os, calls := calls ?s1 @ ?tail\<rparr>"
          using assms(1) ne True by (simp add: delete_attempt_def Let_def)
        then show ?thesis using i1(1) tail
          by (simp add: moved_inv_def status_inv_def renamed_def)
      next
        case t: False
        then obtain result cs where mv: "move_away env name = Inr (result, cs)"
          and s': "s' = (?s1\<lparr>status := result, try_to_move_away := True,
                     has_been_moved_away := has_been_moved_away ?s1 \<or> NT_SUCCESS result,
                     calls := calls ?s1 @ cs\<rparr>)\<lparr>status := ?os,
                       calls := (calls ?s1 @ cs) @ ?tail\<rparr>"
          using assms(1) ne True
          by (auto simp: delete_attempt_def Let_def split: sum.splits)
        from move_away_calls [OF mv] show ?thesis using s' i1(1) tail
          by (simp add: moved_inv_def status_inv_def)
      qed
    qed
  qed
qed

lemma delete_loop_inv:
  "delete_loop env name access share flags n i s = Inr s' \<Longrightarrow> moved_inv s \<Longrightarrow>
   0 < n \<or> status_inv s \<Longrightarrow> moved_inv s' \<and> status_inv s'"
proof (induction n arbitrary: i s)
  case 0
  then show ?case by simp
next
  case (Suc n)
  from Suc.prems(1) obtain try_again s1 where
    a: "delete_attempt env name access share flags i s = Inr (try_again, s1)"
    by (auto split: sum.splits)
  from delete_attempt_inv [OF a Suc.prems(2)] have i1: "moved_inv s1" "status_inv s1" by auto
  show ?case
  proof (cases "\<not> NT_SUCCESS (status s1) \<and> try_again")
    case False
    then have "s' = s1" using Suc.prems(1) a by auto
    then show ?thesis using i1 by simp
  next
    case True
    let ?s2 = "s1\<lparr>calls := calls s1 @ [Sleep 5]\<rparr>"
    have r: "delete_loop env name access share flags n (Suc i) ?s2 = Inr s'"
      using Suc.prems(1) a True by auto
    have i2: "moved_inv ?s2" "status_inv ?s2"
      using i1 by (simp_all add: moved_inv_def status_inv_def renamed_def)
    from Suc.IH [OF r i2(1)] i2(2) show ?thesis by simp
  qed
qed

lemma safe_unlink_run_cases:
  assumes "safe_unlink_run env name = Inr r"
  shows "(\<exists>res cs. r = Inl (res, cs) \<and> quiet cs) \<or>
         (\<exists>s. r = Inr s \<and> moved_inv s \<and> (has_been_moved_away s \<longrightarrow> status_inv s))"
proof -
  obtain status0 attributes0 where q: "query_attributes env 0 = (status0, attributes0)"
    by (cases "query_attributes env 0") auto
  let ?cs0 = "[QueryAttributes name status0]"
  have q0: "quiet ?cs0" by simp
  show ?thesis
  proof (cases "NT_SUCCESS status0")
    case False
    then show ?thesis using assms q by (auto simp: safe_unlink_run_def)
  next
    case ok: True
    show ?thesis
    proof (cases "clear_readonly env name status0 attributes0 ?cs0")
      case (Inl early)
      obtain res cs where e: "early = (res, cs)" by (cases early) auto
      have "quiet cs" using clear_readonly_quiet [OF q0, of env name status0 attributes0 res cs] Inl e
        by simp
      then show ?thesis using assms q ok Inl e by (auto simp: safe_unlink_run_def)
    next
      case (Inr x)
      obtain status1 attributes cs1 where x: "x = (status1, attributes, cs1)" by (cases x) auto
      have q1: "quiet cs1"
        using clear_readonly_quiet [OF q0, of env name status0 attributes0 _ cs1 status1 attributes]
          Inr x by simp
      let ?access = "DELETE OR FILE_LIST_DIRECTORY OR SYNCHRONIZE"
      let ?flags = "FILE_OPEN_FOR_BACKUP_INTENT OR FILE_SYNCHRONOUS_IO_NONALERT"
      let ?is_dir = "FILE_ATTRIBUTE_DIRECTORY AND attributes \<noteq> 0"
      show ?thesis
      proof (cases "open_loop env ?access ?flags 10 0 status1 FILE_SHARE_DELETE False cs1")
        case early: (Inl early)
        obtain res cs where e: "early = (res, cs)" by (cases early) auto
        have "quiet cs"
          using open_loop_quiet [OF q1, of env ?access ?flags 10 0 status1 FILE_SHARE_DELETE False res cs]
            early e by simp
        then show ?thesis using assms q ok Inr x early e
          by (auto simp: safe_unlink_run_def Let_def simp del: open_loop.simps)
      next
        case opened: (Inr y)
        obtain status2 share move cs2 where y: "y = (status2, share, move, cs2)"
          by (cases y) auto
        have q2: "quiet cs2"
          using open_loop_quiet [OF q1, of env ?access ?flags 10 0 status1 FILE_SHARE_DELETE False
              _ cs2 status2 share move] opened y by simp
        let ?s0 = "\<lparr>status = status2, dir_empty = False, try_to_move_away = move,
                     has_been_moved_away = False, dir_calls = 0, calls = cs2\<rparr>"
        show ?thesis
        proof (cases "first_move_away env name ?is_dir ?s0")
          case (Inl fault)
          then show ?thesis using assms q ok Inr x opened y
            by (auto simp: safe_unlink_run_def Let_def simp del: open_loop.simps)
        next
          case fm: (Inr s)
          from first_move_away_inv [OF fm] q2
          have i: "moved_inv s" "delete_statuses (calls s) = []"
            "has_been_moved_away s \<longrightarrow> NT_SUCCESS (status s)" by auto
          show ?thesis
          proof (cases "NT_SUCCESS (status s)")
            case False
            then have "r = Inr s" using assms q ok Inr x opened y fm
              by (auto simp: safe_unlink_run_def Let_def simp del: open_loop.simps)
            then show ?thesis using i False by auto
          next
            case True
            let ?n = "if has_been_moved_away s then 5 else 20 :: nat"
            obtain s' where dl: "delete_loop env name ?access share ?flags ?n 0 s = Inr s'"
              and r: "r = Inr s'"
              using assms q ok Inr x opened y fm True
              by (auto simp: safe_unlink_run_def Let_def split: sum.splits
                  simp del: open_loop.simps delete_loop.simps)
            have "0 < ?n" by simp
            with delete_loop_inv [OF dl i(1)] have "moved_inv s' \<and> status_inv s'" by blast
            then show ?thesis using r by auto
          qed
        qed
      qed
    qed
  qed
qed

text \<open>
  \<^bold>\<open>C6\<close> (as amended). Whenever \<open>safe_unlink\<close> has renamed the target into the trash directory
  and the last attempt to mark it for deletion (the delete disposition, or the reopen
  with \<open>FILE_DELETE_ON_CLOSE\<close> that follows \<open>STATUS_CANNOT_DELETE\<close>) has failed, it
  closes the handle last and reports \<open>STATUS_SUCCESS\<close> with debug code 6.
\<close>

theorem safe_unlink_moved_away:
  "safe_unlink env name = Inr (result, cs) \<Longrightarrow> renamed cs \<Longrightarrow>
   \<not> NT_SUCCESS (last (delete_statuses cs)) \<Longrightarrow>
   result = \<lparr>last_error_code = STATUS_SUCCESS, debug = 0x6\<rparr> \<and>
   (\<exists>cs'. cs = cs' @ [Close target_handle])"
proof -
  assume su: "safe_unlink env name = Inr (result, cs)" and rn: "renamed cs"
    and fail: "\<not> NT_SUCCESS (last (delete_statuses cs))"
  from su obtain r where run: "safe_unlink_run env name = Inr r"
    by (auto simp: safe_unlink_def split: sum.splits)
  from safe_unlink_run_cases [OF run] show ?thesis
  proof
    assume "\<exists>res cs. r = Inl (res, cs) \<and> quiet cs"
    then have "quiet cs" using su run by (auto simp: safe_unlink_def)
    then show ?thesis using rn quiet_renamed by blast
  next
    assume "\<exists>s. r = Inr s \<and> moved_inv s \<and> (has_been_moved_away s \<longrightarrow> status_inv s)"
    then obtain s where s: "r = Inr s" "moved_inv s" "has_been_moved_away s \<longrightarrow> status_inv s"
      by blast
    have res: "(result, cs) = unlink_result s" using su run s(1) by (simp add: safe_unlink_def)
    then have cs: "cs = calls s @ [Close target_handle]" by (simp add: unlink_result_def)
    have mv: "has_been_moved_away s" using rn cs s(2) by (simp add: moved_inv_def)
    then have "status_inv s" using s(3) by simp
    then have "\<not> NT_SUCCESS (status s)" using fail cs by (simp add: status_inv_def)
    then show ?thesis using res mv by (simp add: unlink_result_def)
  qed
qed

lemma open_loop_numeral:
  "open_loop env access flags (numeral n) k status0 share move cs =
     (let status1 = open_file env k;
          cs1 = cs @ [OpenFile access share flags status1]
      in if status1 = STATUS_SHARING_VIOLATION then
           (if Suc (pred_numeral n) < 2
            then Inl (\<lparr>last_error_code = status1, debug = 0x4\<rparr>, cs1)
            else open_loop env access flags (pred_numeral n) (Suc k) status1 FILE_SHARE_VALID_FLAGS True
                   (cs1 @ [Sleep 5]))
         else if status1 = STATUS_DELETE_PENDING
           then Inl (\<lparr>last_error_code = STATUS_SUCCESS, debug = 0x2\<rparr>, cs1)
         else if \<not> NT_SUCCESS status1
           then Inl (\<lparr>last_error_code = status1, debug = 0x3\<rparr>, cs1)
         else Inr (status1, share, move, cs1))"
  by (simp only: numeral_eq_Suc open_loop.simps)

lemma delete_loop_numeral:
  "delete_loop env name access share flags (numeral n) i s =
     (case delete_attempt env name access share flags i s of
        Inl fault \<Rightarrow> Inl fault
      | Inr (try_again, s1) \<Rightarrow>
          if \<not> NT_SUCCESS (status s1) \<and> try_again
          then delete_loop env name access share flags (pred_numeral n) (Suc i)
                 (s1\<lparr>calls := calls s1 @ [Sleep 5]\<rparr>)
          else Inr s1)"
  by (simp only: numeral_eq_Suc delete_loop.simps)

text \<open>A plain file that another process holds open: the first open meets a sharing
  violation, the file is moved away, and the delete disposition is denied.\<close>

definition locked_file_env :: unlink_env where
  "locked_file_env = \<lparr>query_attributes = (\<lambda>k. (STATUS_SUCCESS, FILE_ATTRIBUTE_NORMAL)),
     open_write_attributes = STATUS_SUCCESS, set_basic_information = STATUS_SUCCESS,
     open_file = (\<lambda>k. if k = 0 then STATUS_SHARING_VIOLATION else STATUS_SUCCESS),
     directory = (\<lambda>k. empty_dir),
     volume_path_name = L (''C:'' @ [CHR 0x5C]),
     query_internal_information = (STATUS_SUCCESS, 0x2A), rename_file = STATUS_SUCCESS,
     set_disposition = (\<lambda>i. STATUS_ACCESS_DENIED), open_relative = (\<lambda>i. STATUS_ACCESS_DENIED)\<rparr>"

lemma move_away_locked_file:
  "move_away locked_file_env target_name =
     Inr (STATUS_SUCCESS,
          [QueryInternalInformation STATUS_SUCCESS,
           Rename (trash_path (L (''C:'' @ [CHR 0x5C])) 0x2A) STATUS_SUCCESS])"
  by (simp add: move_away_def locked_file_env_def target_name_def MAX_PATH_def nt_prefix_def
      trash_dir_def L_def NT_SUCCESS_STATUS_SUCCESS)

lemma safe_unlink_locked_file:
  "safe_unlink locked_file_env target_name =
     Inr (\<lparr>last_error_code = STATUS_SUCCESS, debug = 0x6\<rparr>,
          [QueryAttributes target_name STATUS_SUCCESS,
           OpenFile (DELETE OR FILE_LIST_DIRECTORY OR SYNCHRONIZE) FILE_SHARE_DELETE
             (FILE_OPEN_FOR_BACKUP_INTENT OR FILE_SYNCHRONOUS_IO_NONALERT) STATUS_SHARING_VIOLATION,
           Sleep 5,
           OpenFile (DELETE OR FILE_LIST_DIRECTORY OR SYNCHRONIZE) FILE_SHARE_VALID_FLAGS
             (FILE_OPEN_FOR_BACKUP_INTENT OR FILE_SYNCHRONOUS_IO_NONALERT) STATUS_SUCCESS,
           QueryInternalInformation STATUS_SUCCESS,
           Rename (trash_path (L (''C:'' @ [CHR 0x5C])) 0x2A) STATUS_SUCCESS,
           SetDisposition STATUS_ACCESS_DENIED,
           Close target_handle])"
proof -
  have a: "FILE_ATTRIBUTE_DIRECTORY AND FILE_ATTRIBUTE_NORMAL = 0"
    "FILE_ATTRIBUTE_READONLY AND FILE_ATTRIBUTE_NORMAL = 0"
    by (simp_all add: FILE_defs)
  have q: "query_attributes locked_file_env 0 = (STATUS_SUCCESS, FILE_ATTRIBUTE_NORMAL)"
    and o0: "open_file locked_file_env 0 = STATUS_SHARING_VIOLATION"
    and o1: "open_file locked_file_env (Suc 0) = STATUS_SUCCESS"
    and sd: "set_disposition locked_file_env 0 = STATUS_ACCESS_DENIED"
    by (simp_all add: locked_file_env_def)
  have "safe_unlink_run locked_file_env target_name =
     Inr (Inr \<lparr>status = STATUS_ACCESS_DENIED, dir_empty = False, try_to_move_away = True,
        has_been_moved_away = True, dir_calls = 0,
        calls = [QueryAttributes target_name STATUS_SUCCESS,
           OpenFile (DELETE OR FILE_LIST_DIRECTORY OR SYNCHRONIZE) FILE_SHARE_DELETE
             (FILE_OPEN_FOR_BACKUP_INTENT OR FILE_SYNCHRONOUS_IO_NONALERT) STATUS_SHARING_VIOLATION,
           Sleep 5,
           OpenFile (DELETE OR FILE_LIST_DIRECTORY OR SYNCHRONIZE) FILE_SHARE_VALID_FLAGS
             (FILE_OPEN_FOR_BACKUP_INTENT OR FILE_SYNCHRONOUS_IO_NONALERT) STATUS_SUCCESS,
           QueryInternalInformation STATUS_SUCCESS,
           Rename (trash_path (L (''C:'' @ [CHR 0x5C])) 0x2A) STATUS_SUCCESS,
           SetDisposition STATUS_ACCESS_DENIED]\<rparr>)"
    unfolding safe_unlink_run_def q
    using a
    by (simp add: clear_readonly_def open_loop_numeral delete_loop_numeral o0 o1 sd
        first_move_away_def move_away_locked_file delete_attempt_def status_distinct Let_def
        NT_SUCCESS_STATUS_SUCCESS NT_SUCCESS_simps
        del: open_loop.simps delete_loop.simps)
  then show ?thesis by (simp add: safe_unlink_def unlink_result_def NT_SUCCESS_simps)
qed

theorem safe_unlink_moved_away_witness:
  "safe_unlink locked_file_env target_name =
     Inr (\<lparr>last_error_code = STATUS_SUCCESS, debug = 0x6\<rparr>,
          [QueryAttributes target_name STATUS_SUCCESS,
           OpenFile (DELETE OR FILE_LIST_DIRECTORY OR SYNCHRONIZE) FILE_SHARE_DELETE
             (FILE_OPEN_FOR_BACKUP_INTENT OR FILE_SYNCHRONOUS_IO_NONALERT) STATUS_SHARING_VIOLATION,
           Sleep 5,
           OpenFile (DELETE OR FILE_LIST_DIRECTORY OR SYNCHRONIZE) FILE_SHARE_VALID_FLAGS
             (FILE_OPEN_FOR_BACKUP_INTENT OR FILE_SYNCHRONOUS_IO_NONALERT) STATUS_SUCCESS,
           QueryInternalInformation STATUS_SUCCESS,
           Rename (trash_path (L (''C:'' @ [CHR 0x5C])) 0x2A) STATUS_SUCCESS,
           SetDisposition STATUS_ACCESS_DENIED,
           Close target_handle]) \<and>
   renamed (snd (projr (safe_unlink locked_file_env target_name))) \<and>
   \<not> NT_SUCCESS (last (delete_statuses (snd (projr (safe_unlink locked_file_env target_name)))))"
proof -
  let ?cs = "snd (projr (safe_unlink locked_file_env target_name))"
  have eq: "safe_unlink locked_file_env target_name =
      Inr (\<lparr>last_error_code = STATUS_SUCCESS, debug = 0x6\<rparr>, ?cs)"
    by (simp add: safe_unlink_locked_file)
  have rn: "renamed ?cs"
    by (simp add: safe_unlink_locked_file NT_SUCCESS_STATUS_SUCCESS)
  have fail: "\<not> NT_SUCCESS (last (delete_statuses ?cs))"
    by (simp add: safe_unlink_locked_file NT_SUCCESS_simps)
  from safe_unlink_moved_away [OF eq rn fail] rn fail show ?thesis
    by (simp add: safe_unlink_locked_file)
qed

text \<open>As the specification states it, with the delete disposition alone as the final attempt, the
  property fails: for a plain file that another process holds open, the first open meets
  a sharing violation, the file is moved away, the delete disposition is refused with
  \<open>STATUS_CANNOT_DELETE\<close>, and the reopen with \<open>FILE_DELETE_ON_CLOSE\<close> succeeds. The
  debug code is then 0, not 6.\<close>

definition reopened_file_env :: unlink_env where
  "reopened_file_env = \<lparr>query_attributes = (\<lambda>k. (STATUS_SUCCESS, FILE_ATTRIBUTE_NORMAL)),
     open_write_attributes = STATUS_SUCCESS, set_basic_information = STATUS_SUCCESS,
     open_file = (\<lambda>k. if k = 0 then STATUS_SHARING_VIOLATION else STATUS_SUCCESS),
     directory = (\<lambda>k. empty_dir),
     volume_path_name = L (''C:'' @ [CHR 0x5C]),
     query_internal_information = (STATUS_SUCCESS, 0x2A), rename_file = STATUS_SUCCESS,
     set_disposition = (\<lambda>i. STATUS_CANNOT_DELETE), open_relative = (\<lambda>i. STATUS_SUCCESS)\<rparr>"

lemma move_away_reopened_file:
  "move_away reopened_file_env target_name =
     Inr (STATUS_SUCCESS,
          [QueryInternalInformation STATUS_SUCCESS,
           Rename (trash_path (L (''C:'' @ [CHR 0x5C])) 0x2A) STATUS_SUCCESS])"
  by (simp add: move_away_def reopened_file_env_def target_name_def MAX_PATH_def nt_prefix_def
      trash_dir_def L_def NT_SUCCESS_STATUS_SUCCESS)

theorem safe_unlink_moved_away_counterexample:
  "safe_unlink reopened_file_env target_name =
     Inr (\<lparr>last_error_code = STATUS_SUCCESS, debug = 0\<rparr>,
          [QueryAttributes target_name STATUS_SUCCESS,
           OpenFile (DELETE OR FILE_LIST_DIRECTORY OR SYNCHRONIZE) FILE_SHARE_DELETE
             (FILE_OPEN_FOR_BACKUP_INTENT OR FILE_SYNCHRONOUS_IO_NONALERT) STATUS_SHARING_VIOLATION,
           Sleep 5,
           OpenFile (DELETE OR FILE_LIST_DIRECTORY OR SYNCHRONIZE) FILE_SHARE_VALID_FLAGS
             (FILE_OPEN_FOR_BACKUP_INTENT OR FILE_SYNCHRONOUS_IO_NONALERT) STATUS_SUCCESS,
           QueryInternalInformation STATUS_SUCCESS,
           Rename (trash_path (L (''C:'' @ [CHR 0x5C])) 0x2A) STATUS_SUCCESS,
           SetDisposition STATUS_CANNOT_DELETE,
           OpenRelative (DELETE OR FILE_LIST_DIRECTORY OR SYNCHRONIZE) FILE_SHARE_VALID_FLAGS
             ((FILE_OPEN_FOR_BACKUP_INTENT OR FILE_SYNCHRONOUS_IO_NONALERT) OR FILE_DELETE_ON_CLOSE)
             STATUS_SUCCESS,
           Close reopened_handle,
           Close target_handle]) \<and>
   \<not> NT_SUCCESS STATUS_CANNOT_DELETE \<and>
   (\<lparr>last_error_code = STATUS_SUCCESS, debug = 0\<rparr> :: UNLINK_RESULT) \<noteq>
     \<lparr>last_error_code = STATUS_SUCCESS, debug = 0x6\<rparr>"
proof -
  have a: "FILE_ATTRIBUTE_DIRECTORY AND FILE_ATTRIBUTE_NORMAL = 0"
    "FILE_ATTRIBUTE_READONLY AND FILE_ATTRIBUTE_NORMAL = 0"
    by (simp_all add: FILE_defs)
  have q: "query_attributes reopened_file_env 0 = (STATUS_SUCCESS, FILE_ATTRIBUTE_NORMAL)"
    and o0: "open_file reopened_file_env 0 = STATUS_SHARING_VIOLATION"
    and o1: "open_file reopened_file_env (Suc 0) = STATUS_SUCCESS"
    and sd: "set_disposition reopened_file_env 0 = STATUS_CANNOT_DELETE"
    and op: "open_relative reopened_file_env 0 = STATUS_SUCCESS"
    by (simp_all add: reopened_file_env_def)
  have "safe_unlink_run reopened_file_env target_name =
     Inr (Inr \<lparr>status = STATUS_SUCCESS, dir_empty = False, try_to_move_away = True,
        has_been_moved_away = True, dir_calls = 0,
        calls = [QueryAttributes target_name STATUS_SUCCESS,
           OpenFile (DELETE OR FILE_LIST_DIRECTORY OR SYNCHRONIZE) FILE_SHARE_DELETE
             (FILE_OPEN_FOR_BACKUP_INTENT OR FILE_SYNCHRONOUS_IO_NONALERT) STATUS_SHARING_VIOLATION,
           Sleep 5,
           OpenFile (DELETE OR FILE_LIST_DIRECTORY OR SYNCHRONIZE) FILE_SHARE_VALID_FLAGS
             (FILE_OPEN_FOR_BACKUP_INTENT OR FILE_SYNCHRONOUS_IO_NONALERT) STATUS_SUCCESS,
           QueryInternalInformation STATUS_SUCCESS,
           Rename (trash_path (L (''C:'' @ [CHR 0x5C])) 0x2A) STATUS_SUCCESS,
           SetDisposition STATUS_CANNOT_DELETE,
           OpenRelative (DELETE OR FILE_LIST_DIRECTORY OR SYNCHRONIZE) FILE_SHARE_VALID_FLAGS
             ((FILE_OPEN_FOR_BACKUP_INTENT OR FILE_SYNCHRONOUS_IO_NONALERT) OR FILE_DELETE_ON_CLOSE)
             STATUS_SUCCESS,
           Close reopened_handle]\<rparr>)"
    unfolding safe_unlink_run_def q
    using a
    by (simp add: clear_readonly_def open_loop_numeral delete_loop_numeral o0 o1 sd op
        first_move_away_def move_away_reopened_file delete_attempt_def status_distinct Let_def
        NT_SUCCESS_STATUS_SUCCESS NT_SUCCESS_simps
        del: open_loop.simps delete_loop.simps)
  then show ?thesis by (simp add: safe_unlink_def unlink_result_def NT_SUCCESS_simps)
qed

end
